theory Spec2Isabelle
  imports Complex_Main "HOL-Library.Sublist" "HOL-Library.Char_ord" "HOL-Library.List_Lexorder"
    "HOL-Library.Product_Lexorder" "HOL-Library.Multiset"
begin

section \<open>Plaques2Gallery: the image extraction core\<close>

text \<open>
  A shallow embedding of \<^verbatim>\<open>plaques2gallery/web_scraping.py\<close> (the packaged module) and, where
  it differs, of the older top-level script \<^verbatim>\<open>web_scrapping.py\<close> (called the legacy module
  below). Python \<^verbatim>\<open>str\<close> is \<open>string\<close>: the characters of the model are the code points
  below 256, on which \<^verbatim>\<open>str.isspace\<close>, \<^verbatim>\<open>str.isdigit\<close> and \<^verbatim>\<open>int\<close> are Python's (text with a
  code point above 255 is outside the model). The browser, the pages it loads and the
  network are the environment: they are parameters of the model, threaded as an explicit
  world state, so that the same URL may answer differently at each attempt.
\<close>

subsection \<open>Python values\<close>

datatype py_error = IndexError | KeyError | ValueError | OtherException

text \<open>Truth value of a \<^verbatim>\<open>str | None\<close>: \<^verbatim>\<open>None\<close> and the empty string are false.\<close>

definition truthy :: "'a list option \<Rightarrow> bool" where
  "truthy v = (case v of None \<Rightarrow> False | Some s \<Rightarrow> s \<noteq> [])"

text \<open>\<^verbatim>\<open>v or ""\<close> for a \<^verbatim>\<open>str | None\<close>.\<close>

definition or_empty :: "string option \<Rightarrow> string" where
  "or_empty v = (case v of None \<Rightarrow> [] | Some s \<Rightarrow> s)"

text \<open>\<^verbatim>\<open>needle in hay\<close> on strings: \<open>needle\<close> occurs as a contiguous substring.\<close>

fun str_in :: "string \<Rightarrow> string \<Rightarrow> bool" where
  "str_in needle [] = (needle = [])"
| "str_in needle (c # cs) = (prefix needle (c # cs) \<or> str_in needle cs)"

subsection \<open>Configuration: the table of known museums\<close>

text \<open>
  \<^verbatim>\<open>KNOWN_MUSEUMS\<close> of \<^verbatim>\<open>config.py\<close>, a dict; iteration follows insertion order, so it is an
  association list. The legacy module holds the same table as \<^verbatim>\<open>visited_museums\<close>.
\<close>

definition KNOWN_MUSEUMS :: "(string \<times> string) list" where
  "KNOWN_MUSEUMS =
    [(''mfa'', ''Museum of Fine Arts Boston''),
     (''artic'', ''The Art Institute of Chicago''),
     (''belvedere'', ''Austrian Gallery Belvedere''),
     (''metmuseum'', ''The Metropolitan Museum of Art''),
     (''nga'', ''The National Gallery of Art''),
     (''sfmoma'', ''San Francisco Museum of Modern Art (SFMOMA)''),
     (''guggenheim'', ''The Guggenheim Museum''),
     (''philamuseum'', ''The Philadelphia Museum of Art''),
     (''albertina'', ''Albertina Museum Wien''),
     (''harvardartmuseums'', ''The Harvard Art Museums''),
     (''leopoldmuseum'', ''The Leopold Museum''),
     (''museodelnovecento'', ''The Museo del Novecento''),
     (''moma'', ''Museum of Modern Art (MoMA)''),
     (''galleriaborghese'', ''The Galleria Borghese''),
     (''doriapamphilj'', ''Galleria Doria Pamphilji''),
     (''famsf'', ''The Fine Arts Museums of San Francisco''),
     (''noma'', ''The New Orleans Museum of Art (NOMA)''),
     (''sjmusart'', ''The San Jos'' @ [CHR 0xE9] @ '' Museum of Art''),
     (''bampfa'', ''Berkeley Art Museum and Pacific Film Archive (BAMPFA)''),
     (''si'', ''Smithsonian Museums'')]"

text \<open>
  The inner loop \<^verbatim>\<open>for museum_domain, museum_name in KNOWN_MUSEUMS.items(): if museum_domain in url\<close>
  up to its first hit: the name of the first table entry whose keyword occurs in the URL.
\<close>

fun first_museum :: "(string \<times> string) list \<Rightarrow> string \<Rightarrow> string option" where
  "first_museum [] url = None"
| "first_museum ((museum_domain, museum_name) # tbl) url =
     (if str_in museum_domain url then Some museum_name else first_museum tbl url)"

text \<open>\<^verbatim>\<open>_detect_museum_from_urls\<close>.\<close>

fun detect_museum_from_urls :: "string list \<Rightarrow> string" where
  "detect_museum_from_urls [] = ''Unknown location''"
| "detect_museum_from_urls (url # urls) =
     (case first_museum KNOWN_MUSEUMS url of
        Some museum_name \<Rightarrow> museum_name
      | None \<Rightarrow> detect_museum_from_urls urls)"

subsection \<open>The environment of the dispatcher\<close>

text \<open>
  \<^verbatim>\<open>extract_main_image_from_page(painting_name, url, browser)\<close> opens a page, and returns
  \<^verbatim>\<open>(img_path, img_url)\<close>; it catches every exception of the page. What a page answers is
  the environment's: a function of the painting's name, the URL and the world, which gives
  the pair and the next world. A session is the world together with the log of the
  navigations made so far, each with the image path it returned.
\<close>

type_synonym 'w extractor =
  "string \<Rightarrow> string \<Rightarrow> 'w \<Rightarrow> (string option \<times> string option) \<times> 'w"

record 'w session =
  world :: 'w
  visits :: "(string \<times> string option) list"

definition visit ::
  "'w extractor \<Rightarrow> string \<Rightarrow> string \<Rightarrow> 'w session
    \<Rightarrow> (string option \<times> string option) \<times> 'w session" where
  "visit ext painting_name url s =
     (case ext painting_name url (world s) of
        (r, w') \<Rightarrow> (r, \<lparr>world = w', visits = visits s @ [(url, fst r)]\<rparr>))"

text \<open>
  The candidate URLs of a painting: \<^verbatim>\<open>list[str] | str\<close>, the string being the search
  stage's error message.
\<close>

datatype urls_input = UrlList "string list" | ErrorString string

text \<open>
  \<^verbatim>\<open>BatchResult\<close>, the 5-tuple written to \<^verbatim>\<open>cur_batch_results\<close>. The second component is the
  image path, or the empty list \<^verbatim>\<open>[]\<close> (here \<open>None\<close>) when no image was saved; the third is
  the source page URL, or a status message.
\<close>

record outcome_record =
  plaque_text :: string
  image_path :: "string option"
  source_or_status :: string
  location :: string
  image_url :: string

subsection \<open>The three tiers (packaged module)\<close>

text \<open>
  \<^verbatim>\<open>_try_wikipedia_urls\<close>: the loop with its local set \<^verbatim>\<open>invalid_urls\<close>, which starts empty.
\<close>

fun wikipedia_loop ::
  "'w extractor \<Rightarrow> string \<Rightarrow> string list \<Rightarrow> string set \<Rightarrow> 'w session
    \<Rightarrow> (string option \<times> string option \<times> string set) \<times> 'w session" where
  "wikipedia_loop ext pn [] invalid_urls s = ((None, None, invalid_urls), s)"
| "wikipedia_loop ext pn (url # urls) invalid_urls s =
     (if str_in ''wikipedia'' url then
        (case visit ext pn url s of
           ((img_path, img_url), s') \<Rightarrow>
             if truthy img_path then ((img_path, img_url, invalid_urls), s')
             else wikipedia_loop ext pn urls (insert url invalid_urls) s')
      else wikipedia_loop ext pn urls invalid_urls s)"

definition try_wikipedia_urls ::
  "'w extractor \<Rightarrow> string \<Rightarrow> string list \<Rightarrow> 'w session
    \<Rightarrow> (string option \<times> string option \<times> string set) \<times> 'w session" where
  "try_wikipedia_urls ext pn urls s = wikipedia_loop ext pn urls {} s"

text \<open>
  \<^verbatim>\<open>_try_museum_urls\<close>. The Python mutates the caller's set \<^verbatim>\<open>invalid_urls\<close> in place; the
  model returns the set as it is when the function returns, as a fourth component.
\<close>

fun try_museum_urls ::
  "'w extractor \<Rightarrow> string \<Rightarrow> string list \<Rightarrow> string set \<Rightarrow> 'w session
    \<Rightarrow> (string option \<times> string option \<times> string \<times> string set) \<times> 'w session" where
  "try_museum_urls ext pn [] invalid_urls s =
     ((None, None, ''Unknown location'', invalid_urls), s)"
| "try_museum_urls ext pn (url # urls) invalid_urls s =
     (if url \<in> invalid_urls then try_museum_urls ext pn urls invalid_urls s
      else
        (case first_museum KNOWN_MUSEUMS url of
           None \<Rightarrow> try_museum_urls ext pn urls invalid_urls s
         | Some museum_name \<Rightarrow>
             (case visit ext pn url s of
                ((img_path, img_url), s') \<Rightarrow>
                  if truthy img_path then ((img_path, img_url, museum_name, invalid_urls), s')
                  else try_museum_urls ext pn urls (insert url invalid_urls) s')))"

text \<open>\<^verbatim>\<open>_try_remaining_urls\<close>.\<close>

fun try_remaining_urls ::
  "'w extractor \<Rightarrow> string \<Rightarrow> string list \<Rightarrow> string set \<Rightarrow> 'w session
    \<Rightarrow> (string option \<times> string option) \<times> 'w session" where
  "try_remaining_urls ext pn [] invalid_urls s = ((None, None), s)"
| "try_remaining_urls ext pn (url # urls) invalid_urls s =
     (if url \<in> invalid_urls then try_remaining_urls ext pn urls invalid_urls s
      else
        (case visit ext pn url s of
           ((img_path, img_url), s') \<Rightarrow>
             if truthy img_path then ((img_path, img_url), s')
             else try_remaining_urls ext pn urls invalid_urls s'))"

subsection \<open>The dispatcher (packaged module)\<close>

text \<open>
  The assignment \<^verbatim>\<open>cur_batch_results[painting_name] = (cur_batch_names_to_imgs[painting_name], ...)\<close>:
  the lookup of the plaque text raises \<^verbatim>\<open>KeyError\<close> for a name the batch does not hold, and
  then nothing is stored.
\<close>

definition store_result ::
  "(string \<rightharpoonup> string) \<Rightarrow> string \<Rightarrow> (string \<rightharpoonup> outcome_record)
    \<Rightarrow> string option \<Rightarrow> string \<Rightarrow> string \<Rightarrow> string
    \<Rightarrow> py_error + (string \<rightharpoonup> outcome_record)" where
  "store_result names pn res path src loc iurl =
     (case names pn of
        None \<Rightarrow> Inl KeyError
      | Some plaque \<Rightarrow>
          Inr (res(pn \<mapsto> \<lparr>plaque_text = plaque, image_path = path, source_or_status = src,
                          location = loc, image_url = iurl\<rparr>)))"

text \<open>
  \<^verbatim>\<open>process_a_painting\<close>. It returns the result table after the call (or the exception
  raised) and the session after the call.
\<close>

definition process_a_painting ::
  "'w extractor \<Rightarrow> string \<Rightarrow> urls_input \<Rightarrow> (string \<rightharpoonup> string)
    \<Rightarrow> (string \<rightharpoonup> outcome_record) \<Rightarrow> 'w session
    \<Rightarrow> (py_error + (string \<rightharpoonup> outcome_record)) \<times> 'w session" where
  "process_a_painting ext pn urls_in names res s =
     (case urls_in of
        ErrorString msg \<Rightarrow>
          (store_result names pn res None ''No image was downloaded (no urls were found).''
             ''Unknown location'' ''No url to download the image was located.'', s)
      | UrlList [] \<Rightarrow>
          (store_result names pn res None ''No image was downloaded (no urls were found).''
             ''Unknown location'' ''No url to download the image was located.'', s)
      | UrlList (url0 # rest) \<Rightarrow>
          (let urls = url0 # rest;
               painting_location = detect_museum_from_urls urls
           in case try_wikipedia_urls ext pn urls s of
             ((img_path, img_url, invalid_urls), s1) \<Rightarrow>
               if truthy img_path then
                 (store_result names pn res img_path url0 painting_location (or_empty img_url), s1)
               else
                 (case try_museum_urls ext pn urls invalid_urls s1 of
                    ((img_path, img_url, museum_location, invalid_urls), s2) \<Rightarrow>
                      if truthy img_path then
                        (store_result names pn res img_path url0 museum_location
                           (or_empty img_url), s2)
                      else
                        (case try_remaining_urls ext pn urls invalid_urls s2 of
                           ((img_path, img_url), s3) \<Rightarrow>
                             if truthy img_path then
                               (store_result names pn res img_path url0 painting_location
                                  (or_empty img_url), s3)
                             else
                               (store_result names pn res None
                                  ''No image was downloaded even though some urls were found.''
                                  painting_location '''', s3)))))"

subsection \<open>The dispatcher of the legacy module\<close>

text \<open>
  \<^verbatim>\<open>process_a_painting\<close> of \<^verbatim>\<open>web_scrapping.py\<close>, for a list of URLs. Its record holds the
  page URL that was visited last and the image URL as the page gave it (it may be
  \<^verbatim>\<open>None\<close>). Its three loops are inline; each is a function here, which returns the hit
  \<^verbatim>\<open>(img_path, img_url, url)\<close> when the loop wrote the record and returned. Its scan for the
  location (the loop with the flag \<^verbatim>\<open>found\<close>) stops at the first URL that holds a keyword,
  with the first such keyword of the table, as \<open>detect_museum_from_urls\<close> does.
\<close>

record legacy_record =
  l_plaque_text :: string
  l_image_path :: "string option"
  l_source_or_status :: string
  l_location :: string
  l_image_url :: "string option"

fun legacy_wikipedia_loop ::
  "'w extractor \<Rightarrow> string \<Rightarrow> string list \<Rightarrow> string set \<Rightarrow> 'w session
    \<Rightarrow> (string option \<times> string option \<times> string) option \<times> string set \<times> 'w session" where
  "legacy_wikipedia_loop ext pn [] invalid_urls s = (None, invalid_urls, s)"
| "legacy_wikipedia_loop ext pn (url # urls) invalid_urls s =
     (if str_in ''wikipedia'' url then
        (case visit ext pn url s of
           ((img_path, img_url), s') \<Rightarrow>
             if truthy img_path then (Some (img_path, img_url, url), invalid_urls, s')
             else legacy_wikipedia_loop ext pn urls (insert url invalid_urls) s')
      else legacy_wikipedia_loop ext pn urls invalid_urls s)"

text \<open>
  The second loop has no test of \<^verbatim>\<open>invalid_urls\<close> and no \<^verbatim>\<open>break\<close>: the inner loop goes on
  through the table after a failed attempt, and \<^verbatim>\<open>painting_location\<close> is overwritten at
  each keyword found.
\<close>

fun legacy_museum_domains ::
  "'w extractor \<Rightarrow> string \<Rightarrow> string \<Rightarrow> (string \<times> string) list \<Rightarrow> string \<Rightarrow> string set
    \<Rightarrow> 'w session
    \<Rightarrow> (string option \<times> string option \<times> string) option \<times> string \<times> string set \<times> 'w session" where
  "legacy_museum_domains ext pn url [] painting_location invalid_urls s =
     (None, painting_location, invalid_urls, s)"
| "legacy_museum_domains ext pn url ((museum_domain, museum_name) # tbl) painting_location
       invalid_urls s =
     (if str_in museum_domain url then
        (case visit ext pn url s of
           ((img_path, img_url), s') \<Rightarrow>
             if truthy img_path then (Some (img_path, img_url, url), museum_name, invalid_urls, s')
             else legacy_museum_domains ext pn url tbl museum_name (insert url invalid_urls) s')
      else legacy_museum_domains ext pn url tbl painting_location invalid_urls s)"

fun legacy_museum_loop ::
  "'w extractor \<Rightarrow> string \<Rightarrow> string list \<Rightarrow> string \<Rightarrow> string set \<Rightarrow> 'w session
    \<Rightarrow> (string option \<times> string option \<times> string) option \<times> string \<times> string set \<times> 'w session" where
  "legacy_museum_loop ext pn [] painting_location invalid_urls s =
     (None, painting_location, invalid_urls, s)"
| "legacy_museum_loop ext pn (url # urls) painting_location invalid_urls s =
     (case legacy_museum_domains ext pn url KNOWN_MUSEUMS painting_location invalid_urls s of
        (Some hit, loc', invalid', s') \<Rightarrow> (Some hit, loc', invalid', s')
      | (None, loc', invalid', s') \<Rightarrow> legacy_museum_loop ext pn urls loc' invalid' s')"

fun legacy_remaining_loop ::
  "'w extractor \<Rightarrow> string \<Rightarrow> string list \<Rightarrow> string set \<Rightarrow> 'w session
    \<Rightarrow> (string option \<times> string option \<times> string) option \<times> 'w session" where
  "legacy_remaining_loop ext pn [] invalid_urls s = (None, s)"
| "legacy_remaining_loop ext pn (url # urls) invalid_urls s =
     (if url \<in> invalid_urls then legacy_remaining_loop ext pn urls invalid_urls s
      else
        (case visit ext pn url s of
           ((img_path, img_url), s') \<Rightarrow>
             if truthy img_path then (Some (img_path, img_url, url), s')
             else legacy_remaining_loop ext pn urls invalid_urls s'))"

definition legacy_store ::
  "(string \<rightharpoonup> string) \<Rightarrow> string \<Rightarrow> (string \<rightharpoonup> legacy_record)
    \<Rightarrow> string option \<Rightarrow> string \<Rightarrow> string \<Rightarrow> string option
    \<Rightarrow> py_error + (string \<rightharpoonup> legacy_record)" where
  "legacy_store names pn res path src loc iurl =
     (case names pn of
        None \<Rightarrow> Inl KeyError
      | Some plaque \<Rightarrow>
          Inr (res(pn \<mapsto> \<lparr>l_plaque_text = plaque, l_image_path = path, l_source_or_status = src,
                          l_location = loc, l_image_url = iurl\<rparr>)))"

definition legacy_process_a_painting ::
  "'w extractor \<Rightarrow> string \<Rightarrow> string list \<Rightarrow> (string \<rightharpoonup> string)
    \<Rightarrow> (string \<rightharpoonup> legacy_record) \<Rightarrow> 'w session
    \<Rightarrow> (py_error + (string \<rightharpoonup> legacy_record)) \<times> 'w session" where
  "legacy_process_a_painting ext pn urls names res s =
     (if urls = [] then
        (legacy_store names pn res None ''No image was downloaded (no urls were found).''
           ''Unknown location'' (Some ''No url to download the image was located.''), s)
      else
        (let painting_location = detect_museum_from_urls urls
         in case legacy_wikipedia_loop ext pn urls {} s of
           (Some (img_path, img_url, url), invalid_urls, s1) \<Rightarrow>
             (legacy_store names pn res img_path url painting_location img_url, s1)
         | (None, invalid_urls, s1) \<Rightarrow>
             (case legacy_museum_loop ext pn urls painting_location invalid_urls s1 of
                (Some (img_path, img_url, url), painting_location, invalid_urls, s2) \<Rightarrow>
                  (legacy_store names pn res img_path url painting_location img_url, s2)
              | (None, painting_location, invalid_urls, s2) \<Rightarrow>
                  (case legacy_remaining_loop ext pn urls invalid_urls s2 of
                     (Some (img_path, img_url, url), s3) \<Rightarrow>
                       (legacy_store names pn res img_path url painting_location img_url, s3)
                   | (None, s3) \<Rightarrow>
                       (legacy_store names pn res None
                          ''No image was downloaded even though some urls were found.''
                          painting_location (Some ''''), s3)))))"

subsection \<open>Reading the navigation log\<close>

text \<open>
  The navigations made between two sessions, and two predicates on such a stretch of the
  log: every attempt in it failed; it is the log of a loop that stops at its first success
  and returns the path \<open>p\<close>.
\<close>

definition new_visits :: "'w session \<Rightarrow> 'w session \<Rightarrow> (string \<times> string option) list" where
  "new_visits s s' = drop (length (visits s)) (visits s')"

definition falsy_all :: "(string \<times> string option) list \<Rightarrow> bool" where
  "falsy_all new = list_all (\<lambda>e. \<not> truthy (snd e)) new"

definition tier_log :: "(string \<times> string option) list \<Rightarrow> string option \<Rightarrow> bool" where
  "tier_log new p =
     (if truthy p then new \<noteq> [] \<and> snd (last new) = p \<and> falsy_all (butlast new)
      else falsy_all new)"

subsection \<open>The location label, in the words of the specification\<close>

text \<open>
  ``The museum name of the first URL (in list order) that matches the keyword table,
  \<^verbatim>\<open>Unknown location\<close> if none matches.''
\<close>

definition first_matching_url_location :: "string list \<Rightarrow> string" where
  "first_matching_url_location urls =
     (case find (\<lambda>url. first_museum KNOWN_MUSEUMS url \<noteq> None) urls of
        None \<Rightarrow> ''Unknown location''
      | Some url \<Rightarrow> the (first_museum KNOWN_MUSEUMS url))"

subsection \<open>Example environments\<close>

text \<open>
  A web in which a page's answer depends on its URL only: the pages of the table yield
  their image (saved path and image URL), every other page yields nothing.
\<close>

definition scripted_pages :: "(string \<times> string \<times> string) list \<Rightarrow> unit extractor" where
  "scripted_pages tbl pn url w =
     (case map_of tbl url of
        Some (path, iurl) \<Rightarrow> ((Some path, Some iurl), w)
      | None \<Rightarrow> ((None, None), w))"

definition fresh_session :: "unit session" where
  "fresh_session = \<lparr>world = (), visits = []\<rparr>"

definition mona_wiki :: string where
  "mona_wiki = ''https://en.wikipedia.org/wiki/Mona_Lisa''"

definition mona_other :: string where
  "mona_other = ''https://example.com/x''"

definition mona_web :: "unit extractor" where
  "mona_web = scripted_pages
     [(mona_wiki, ''extracted_images/Mona Lisa.jpg'', ''https://upload.wikimedia.org/mona.jpg'')]"

definition mona_names :: "string \<rightharpoonup> string" where
  "mona_names = [''Mona Lisa'' \<mapsto> ''Mona Lisa, Leonardo da Vinci'']"

definition persistence_url :: string where
  "persistence_url = ''https://en.wikipedia.org/wiki/The_Persistence_of_Memory''"

definition met_url :: string where
  "met_url = ''https://www.metmuseum.org/art/collection/1''"

definition moma_url :: string where
  "moma_url = ''https://www.moma.org/collection/works/2''"

definition moma_web :: "unit extractor" where
  "moma_web = scripted_pages
     [(moma_url, ''extracted_images/Mona Lisa.jpg'', ''https://www.moma.org/media/2.jpg'')]"

text \<open>A web in which every page is blocked.\<close>

definition always_blocked :: "unit extractor" where
  "always_blocked pn url w = ((None, None), w)"

subsection \<open>Strings of a responsive source list\<close>

text \<open>
  \<^verbatim>\<open>str.isspace\<close> on the code points below 256 (tab to carriage return, the four
  separators, the space, U+0085 and U+00A0), \<^verbatim>\<open>str.strip()\<close> and \<^verbatim>\<open>str.split()\<close> (both on
  white space), and \<^verbatim>\<open>token.rstrip(",")\<close>.
\<close>

definition py_isspace :: "char \<Rightarrow> bool" where
  "py_isspace c = (c \<in> set [CHR 0x09, CHR 0x0A, CHR 0x0B, CHR 0x0C, CHR 0x0D, CHR 0x1C,
     CHR 0x1D, CHR 0x1E, CHR 0x1F, CHR 0x20, CHR 0x85, CHR 0xA0])"

definition py_strip :: "string \<Rightarrow> string" where
  "py_strip s = rev (dropWhile py_isspace (rev (dropWhile py_isspace s)))"

fun split_ws :: "string \<Rightarrow> string \<Rightarrow> string list" where
  "split_ws cur [] = (if cur = [] then [] else [cur])"
| "split_ws cur (c # cs) =
     (if py_isspace c then (if cur = [] then split_ws [] cs else cur # split_ws [] cs)
      else split_ws (cur @ [c]) cs)"

definition py_split :: "string \<Rightarrow> string list" where
  "py_split s = split_ws [] s"

definition rstrip_comma :: "string \<Rightarrow> string" where
  "rstrip_comma token = rev (dropWhile (\<lambda>c. c = CHR '','') (rev token))"

text \<open>\<^verbatim>\<open>[token.rstrip(",") for token in srcset.strip().split()]\<close>.\<close>

definition srcset_tokens_of :: "string \<Rightarrow> string list" where
  "srcset_tokens_of srcset = map rstrip_comma (py_split (py_strip srcset))"

text \<open>
  \<^verbatim>\<open>str.isdigit\<close> on the code points below 256: the decimal digits \<^verbatim>\<open>0\<close> to \<^verbatim>\<open>9\<close> and the
  superscript digits U+00B2, U+00B3 and U+00B9, which are digits and not decimal digits.
\<close>

definition py_isdecimal :: "char \<Rightarrow> bool" where
  "py_isdecimal c = (c \<in> set ''0123456789'')"

definition py_isdigit :: "char \<Rightarrow> bool" where
  "py_isdigit c = (py_isdecimal c \<or> c \<in> set [CHR 0xB2, CHR 0xB3, CHR 0xB9])"

definition digit_value :: "char \<Rightarrow> int" where
  "digit_value c = int (of_char c) - 48"

text \<open>
  \<^verbatim>\<open>int(s)\<close> for a string of characters that satisfy \<^verbatim>\<open>str.isdigit\<close>, which is what the
  resolver passes to it: \<^verbatim>\<open>ValueError\<close> for the empty string, for a digit that is not a
  decimal digit, and for a string of more digits than \<^verbatim>\<open>sys.get_int_max_str_digits()\<close>,
  which is 4300 unless the interpreter is configured otherwise.
\<close>

definition int_max_str_digits :: nat where
  "int_max_str_digits = 4300"

definition py_int :: "string \<Rightarrow> py_error + int" where
  "py_int s =
     (if s = [] \<or> \<not> list_all py_isdecimal s \<or> int_max_str_digits < length s
      then Inl ValueError
      else Inr (foldl (\<lambda>acc c. 10 * acc + digit_value c) 0 s))"

text \<open>
  The test \<^verbatim>\<open>descriptor[-1] in ("w", "x") and any(c.isdigit() for c in descriptor[:-1])\<close>;
  \<^verbatim>\<open>descriptor[-1]\<close> raises \<^verbatim>\<open>IndexError\<close> on the empty string, which a token \<^verbatim>\<open>,\<close> becomes.
\<close>

definition descriptor_ok :: "string \<Rightarrow> py_error + bool" where
  "descriptor_ok descriptor =
     (if descriptor = [] then Inl IndexError
      else Inr ((last descriptor = CHR ''w'' \<or> last descriptor = CHR ''x'')
                \<and> list_ex py_isdigit (butlast descriptor)))"

text \<open>\<^verbatim>\<open>int(''.join(filter(str.isdigit, descriptor)))\<close>.\<close>

definition descriptor_value :: "string \<Rightarrow> py_error + int" where
  "descriptor_value descriptor = py_int (filter py_isdigit descriptor)"

text \<open>
  The pairing loop \<^verbatim>\<open>while i < len(srcset_tokens) - 1\<close>: the list here is the tokens from
  index \<open>i\<close> on. A pair takes two tokens, a token that is followed by no descriptor is
  passed over.
\<close>

fun parse_pairs :: "string list \<Rightarrow> py_error + (string \<times> int) list" where
  "parse_pairs (url # descriptor # rest) =
     (case descriptor_ok descriptor of
        Inl e \<Rightarrow> Inl e
      | Inr True \<Rightarrow>
          (case descriptor_value descriptor of
             Inl e \<Rightarrow> Inl e
           | Inr v \<Rightarrow>
               (case parse_pairs rest of
                  Inl e \<Rightarrow> Inl e
                | Inr srcset_pairs \<Rightarrow> Inr ((url, v) # srcset_pairs)))
      | Inr False \<Rightarrow> parse_pairs (descriptor # rest))"
| "parse_pairs [url] = Inr []"
| "parse_pairs [] = Inr []"


subsection \<open>The network and \<^verbatim>\<open>download_image_from_url\<close>\<close>

text \<open>
  What a library call on the network does: it returns, or raises \<^verbatim>\<open>aiohttp.ClientError\<close>,
  \<^verbatim>\<open>TimeoutError\<close>, or an exception of another class. A response has its status, its
  \<^verbatim>\<open>Content-Type\<close> header if any, and what \<^verbatim>\<open>await response.read()\<close> does.
\<close>

datatype 'a io = Returns 'a | RaisesClientError | RaisesTimeoutError | RaisesOther

type_synonym bytes = "char list"

record response =
  resp_status :: int
  resp_content_type :: "string option"
  resp_body :: "bytes io"

text \<open>
  The environment of a download: \<^verbatim>\<open>urllib.parse.urljoin\<close> (base first), which returns the
  absolute URL or raises (\<^verbatim>\<open>ValueError\<close> on a malformed URL such as \<^verbatim>\<open>//[bad\<close>), and
  \<^verbatim>\<open>mimetypes.guess_extension\<close>, library functions taken as they are, and the answer of
  \<^verbatim>\<open>session.get(absolute_url, headers)\<close> to a URL and a referer in a state of the network.
\<close>

record 'n http =
  env_urljoin :: "string \<Rightarrow> string \<Rightarrow> py_error + string"
  env_guess_extension :: "string \<Rightarrow> string option"
  env_get :: "string \<Rightarrow> string \<Rightarrow> 'n \<Rightarrow> response io \<times> 'n"

type_synonym image_data = "bytes option \<times> string option \<times> string option"

definition absent :: image_data where
  "absent = (None, None, None)"

text \<open>\<^verbatim>\<open>response.headers.get("Content-Type", "")\<close>.\<close>

definition content_type_of :: "response \<Rightarrow> string" where
  "content_type_of resp = (case resp_content_type resp of None \<Rightarrow> [] | Some c \<Rightarrow> c)"

text \<open>
  \<^verbatim>\<open>mimetypes.guess_extension(content_type.split(";")[0]) or ".jpg"\<close>.
\<close>

definition extension_of :: "'n http \<Rightarrow> response \<Rightarrow> string" where
  "extension_of env resp =
     (case env_guess_extension env (takeWhile (\<lambda>c. c \<noteq> CHR '';'') (content_type_of resp)) of
        None \<Rightarrow> ''.jpg''
      | Some e \<Rightarrow> if e = [] then ''.jpg'' else e)"

text \<open>
  \<^verbatim>\<open>download_image_from_url\<close> of the packaged module. \<^verbatim>\<open>urljoin\<close> is called before the
  \<^verbatim>\<open>try\<close>: what it raises leaves the function, and no request is made. The two \<^verbatim>\<open>except\<close>
  clauses catch \<^verbatim>\<open>aiohttp.ClientError\<close> and \<^verbatim>\<open>TimeoutError\<close>, around the request and the
  reading of the body; an exception of another class leaves the function.
\<close>

definition download_image_from_url ::
  "'n http \<Rightarrow> string \<Rightarrow> string \<Rightarrow> 'n \<Rightarrow> (py_error + image_data) \<times> 'n" where
  "download_image_from_url env url base_url n =
     (case env_urljoin env base_url url of
        Inl e \<Rightarrow> (Inl e, n)
      | Inr absolute_url \<Rightarrow>
          (case env_get env absolute_url base_url n of
             (Returns resp, n') \<Rightarrow>
               if resp_status resp = 200 \<and> prefix ''image/'' (content_type_of resp) then
                 (case resp_body resp of
                    Returns content \<Rightarrow>
                      (Inr (Some content, Some absolute_url, Some (extension_of env resp)), n')
                  | RaisesClientError \<Rightarrow> (Inr absent, n')
                  | RaisesTimeoutError \<Rightarrow> (Inr absent, n')
                  | RaisesOther \<Rightarrow> (Inl OtherException, n'))
               else (Inr absent, n')
           | (RaisesClientError, n') \<Rightarrow> (Inr absent, n')
           | (RaisesTimeoutError, n') \<Rightarrow> (Inr absent, n')
           | (RaisesOther, n') \<Rightarrow> (Inl OtherException, n')))"

text \<open>
  \<^verbatim>\<open>download_image_from_url\<close> of the legacy module: \<^verbatim>\<open>urljoin\<close> is before the \<^verbatim>\<open>try\<close> as
  well, and one bare \<^verbatim>\<open>except\<close> catches every exception of the request and of the reading
  of the body.
\<close>

definition legacy_download_image_from_url ::
  "'n http \<Rightarrow> string \<Rightarrow> string \<Rightarrow> 'n \<Rightarrow> (py_error + image_data) \<times> 'n" where
  "legacy_download_image_from_url env url base_url n =
     (case env_urljoin env base_url url of
        Inl e \<Rightarrow> (Inl e, n)
      | Inr absolute_url \<Rightarrow>
          (case env_get env absolute_url base_url n of
             (Returns resp, n') \<Rightarrow>
               if resp_status resp = 200 \<and> prefix ''image/'' (content_type_of resp) then
                 (case resp_body resp of
                    Returns content \<Rightarrow>
                      (Inr (Some content, Some absolute_url, Some (extension_of env resp)), n')
                  | RaisesClientError \<Rightarrow> (Inr absent, n')
                  | RaisesTimeoutError \<Rightarrow> (Inr absent, n')
                  | RaisesOther \<Rightarrow> (Inr absent, n'))
               else (Inr absent, n')
           | (RaisesClientError, n') \<Rightarrow> (Inr absent, n')
           | (RaisesTimeoutError, n') \<Rightarrow> (Inr absent, n')
           | (RaisesOther, n') \<Rightarrow> (Inr absent, n')))"

subsection \<open>Priority queues\<close>

text \<open>
  \<^verbatim>\<open>heapq\<close> is Python's library; it is modelled by its documented contract. A heap is the
  list of its items, in any order: \<^verbatim>\<open>heap[0]\<close> is the smallest item, \<^verbatim>\<open>heappush\<close> adds an
  item, \<^verbatim>\<open>heapify\<close> keeps the items, \<^verbatim>\<open>heappop\<close> removes the smallest item and returns it.
  Python compares the tuples of a heap component by component; \<open>key\<close> gives the components
  that a comparison can reach.
\<close>

definition heap_first :: "('a \<Rightarrow> 'k::linorder) \<Rightarrow> 'a list \<Rightarrow> 'a" where
  "heap_first key heap = fold (\<lambda>x m. if key x < key m then x else m) (tl heap) (hd heap)"

definition heappush :: "'a list \<Rightarrow> 'a \<Rightarrow> 'a list" where
  "heappush heap item = heap @ [item]"

definition heapify :: "'a list \<Rightarrow> 'a list" where
  "heapify xs = xs"

definition heappop :: "('a \<Rightarrow> 'k::linorder) \<Rightarrow> 'a list \<Rightarrow> 'a \<times> 'a list" where
  "heappop key heap = (let item = heap_first key heap in (item, remove1 item heap))"

subsection \<open>The resolver: \<^verbatim>\<open>extract_best_image_from_url\<close>\<close>

text \<open>
  The state of a page's processing: the network, the log of the download attempts (the
  URL passed to \<^verbatim>\<open>download_image_from_url\<close> and whether the bytes it returned were
  non-empty), and the files written.
\<close>

record 'n net =
  net_world :: 'n
  requests :: "(string \<times> bool) list"
  files :: "string \<rightharpoonup> bytes"

text \<open>
  The resolver is the same text in both modules; each calls the \<^verbatim>\<open>download_image_from_url\<close>
  of its own module. So the resolver is given here for a download function \<open>dl\<close>, which
  is \<open>download_image_from_url env\<close> in the packaged module and
  \<open>legacy_download_image_from_url env\<close> in the legacy module.
\<close>

type_synonym 'n downloader = "string \<Rightarrow> string \<Rightarrow> 'n \<Rightarrow> (py_error + image_data) \<times> 'n"

definition try_download ::
  "'n downloader \<Rightarrow> string \<Rightarrow> string \<Rightarrow> 'n net \<Rightarrow> (py_error + image_data) \<times> 'n net" where
  "try_download dl url base_url st =
     (case dl url base_url (net_world st) of
        (r, n') \<Rightarrow>
          (r, st\<lparr>net_world := n',
                requests := requests st @
                  [(url, case r of Inl e \<Rightarrow> False | Inr d \<Rightarrow> truthy (fst d))]\<rparr>))"

text \<open>
  An image element: its attributes, in the order in which \<^verbatim>\<open>attrs.items()\<close> gives them.
  \<^verbatim>\<open>get_attribute\<close> gives \<^verbatim>\<open>None\<close> for an attribute the element does not have.
\<close>

type_synonym img_block = "(string \<times> string) list"

definition get_attribute :: "img_block \<Rightarrow> string \<Rightarrow> string option" where
  "get_attribute img_block name = map_of img_block name"

text \<open>
  The fallback loop \<^verbatim>\<open>for i in range(len(srcset_tokens) - 1, -1, -1)\<close>, on the reversed token
  list. The loops of the resolver return \<open>Some\<close> of the image when they return from the
  function, and \<open>None\<close> when they end.
\<close>

fun fallback_loop ::
  "'n downloader \<Rightarrow> string list \<Rightarrow> string \<Rightarrow> 'n net \<Rightarrow> (py_error + image_data option) \<times> 'n net" where
  "fallback_loop dl [] base_url st = (Inr None, st)"
| "fallback_loop dl (url # urls) base_url st =
     (if \<not> str_in ''/'' url then fallback_loop dl urls base_url st
      else
        (case try_download dl url base_url st of
           (Inl e, st') \<Rightarrow> (Inl e, st')
         | (Inr (img_bytes, img_url, img_extension), st') \<Rightarrow>
             if truthy img_bytes then (Inr (Some (img_bytes, img_url, img_extension)), st')
             else fallback_loop dl urls base_url st'))"

text \<open>The loop \<^verbatim>\<open>while max_heap: _, url = heapq.heappop(max_heap)\<close>.\<close>

function heap_loop ::
  "'n downloader \<Rightarrow> (int \<times> string) list \<Rightarrow> string \<Rightarrow> 'n net
    \<Rightarrow> (py_error + image_data option) \<times> 'n net" where
  "heap_loop dl max_heap base_url st =
     (if max_heap = [] then (Inr None, st)
      else
        (case heappop (\<lambda>item. item) max_heap of
           ((neg_value, url), max_heap') \<Rightarrow>
             (case try_download dl url base_url st of
                (Inl e, st') \<Rightarrow> (Inl e, st')
              | (Inr (img_bytes, img_url, img_extension), st') \<Rightarrow>
                  if truthy img_bytes then (Inr (Some (img_bytes, img_url, img_extension)), st')
                  else heap_loop dl max_heap' base_url st')))"
  by pat_completeness auto
termination
proof (relation "measure (\<lambda>(dl, max_heap, base_url, st). length max_heap)", goal_cases)
  case 1
  show ?case by simp
next
  case (2 dl max_heap base_url st popped max_heap')
  have "fold (\<lambda>x m. if x < m then x else m) xs a \<in> set (a # xs)"
    for xs and a :: "int \<times> string"
    by (induction xs arbitrary: a) auto
  from this[of "tl max_heap" "hd max_heap"] 2(1)
  have "heap_first (\<lambda>item. item) max_heap \<in> set max_heap"
    by (simp add: heap_first_def)
  then have "length (remove1 (heap_first (\<lambda>item. item) max_heap) max_heap) < length max_heap"
    using 2(1) by (simp add: length_remove1)
  with 2(2) show ?case
    by (simp add: heappop_def Let_def)
qed

text \<open>The part of the function that reads \<^verbatim>\<open>srcset\<close>, from the token list on.\<close>

definition try_srcset_tokens ::
  "'n downloader \<Rightarrow> string list \<Rightarrow> string \<Rightarrow> 'n net \<Rightarrow> (py_error + image_data option) \<times> 'n net" where
  "try_srcset_tokens dl srcset_tokens base_url st =
     (case parse_pairs srcset_tokens of
        Inl e \<Rightarrow> (Inl e, st)
      | Inr srcset_pairs \<Rightarrow>
          if length srcset_pairs * 2 < length srcset_tokens then
            fallback_loop dl (rev srcset_tokens) base_url st
          else
            heap_loop dl (heapify (map (\<lambda>(url, v). (- v, url)) srcset_pairs)) base_url st)"

text \<open>The loop over the other attributes, \<^verbatim>\<open>for key, val in attrs.items()\<close>.\<close>

fun attrs_loop ::
  "'n downloader \<Rightarrow> (string \<times> string) list \<Rightarrow> string \<Rightarrow> 'n net
    \<Rightarrow> (py_error + image_data option) \<times> 'n net" where
  "attrs_loop dl [] base_url st = (Inr None, st)"
| "attrs_loop dl ((key, val) # attrs) base_url st =
     (if key = ''src'' \<or> key = ''srcset'' then attrs_loop dl attrs base_url st
      else
        (case try_download dl val base_url st of
           (Inl e, st') \<Rightarrow> (Inl e, st')
         | (Inr (img_bytes, img_url, img_extension), st') \<Rightarrow>
             if truthy img_bytes then (Inr (Some (img_bytes, img_url, img_extension)), st')
             else attrs_loop dl attrs base_url st'))"

text \<open>The part of the function after \<^verbatim>\<open>srcset\<close>: the attribute \<^verbatim>\<open>src\<close>, then the others.\<close>

definition try_src_and_attrs ::
  "'n downloader \<Rightarrow> img_block \<Rightarrow> string \<Rightarrow> 'n net \<Rightarrow> (py_error + image_data) \<times> 'n net" where
  "try_src_and_attrs dl img_block base_url st =
     (case (if truthy (get_attribute img_block ''src'')
            then (case try_download dl (the (get_attribute img_block ''src'')) base_url st of
                    (Inl e, st') \<Rightarrow> (Inl e, st')
                  | (Inr (img_bytes, img_url, img_extension), st') \<Rightarrow>
                      if truthy img_bytes
                      then (Inr (Some (img_bytes, img_url, img_extension)), st')
                      else (Inr None, st'))
            else (Inr None, st)) of
        (Inl e, st1) \<Rightarrow> (Inl e, st1)
      | (Inr (Some found), st1) \<Rightarrow> (Inr found, st1)
      | (Inr None, st1) \<Rightarrow>
          (case attrs_loop dl img_block base_url st1 of
             (Inl e, st2) \<Rightarrow> (Inl e, st2)
           | (Inr (Some found), st2) \<Rightarrow> (Inr found, st2)
           | (Inr None, st2) \<Rightarrow> (Inr absent, st2)))"

definition extract_best_image_from_url ::
  "'n downloader \<Rightarrow> img_block \<Rightarrow> string \<Rightarrow> 'n net \<Rightarrow> (py_error + image_data) \<times> 'n net" where
  "extract_best_image_from_url dl img_block base_url st =
     (if truthy (get_attribute img_block ''srcset'') then
        (case try_srcset_tokens dl (srcset_tokens_of (the (get_attribute img_block ''srcset'')))
                base_url st of
           (Inl e, st1) \<Rightarrow> (Inl e, st1)
         | (Inr (Some found), st1) \<Rightarrow> (Inr found, st1)
         | (Inr None, st1) \<Rightarrow> try_src_and_attrs dl img_block base_url st1)
      else try_src_and_attrs dl img_block base_url st)"

subsection \<open>The selector: \<^verbatim>\<open>get_img\<close>\<close>

text \<open>
  The bounding box of an element: its width and height (the position is not read), two
  floats. A finite float is a rational number, and floats compare as the rationals do; the
  product of two floats is the rounded product, which is not the product of the rationals
  (it can be zero where no factor is), so float multiplication is a parameter \<open>fmul\<close> of
  the model. (Infinite and undefined products are outside the model.)
  \<^verbatim>\<open>bounding_box()\<close> gives \<^verbatim>\<open>None\<close> for an element that is not laid out.
\<close>

record box =
  width :: rat
  height :: rat

text \<open>
  The loop \<^verbatim>\<open>for i, img_block in enumerate(img_blocks)\<close>, from index \<open>i\<close> on, which pushes
  \<^verbatim>\<open>(-area, i, img_block)\<close>. The indices of a heap are distinct, so Python's comparison of
  two of its tuples ends at the index: the key of an item is \<^verbatim>\<open>(-area, i)\<close>.
\<close>

fun push_boxes ::
  "(rat \<Rightarrow> rat \<Rightarrow> rat) \<Rightarrow> nat \<Rightarrow> (box option \<times> img_block) list
    \<Rightarrow> ((rat \<times> nat) \<times> img_block) list \<Rightarrow> ((rat \<times> nat) \<times> img_block) list" where
  "push_boxes fmul i [] heap = heap"
| "push_boxes fmul i ((None, img_block) # img_blocks) heap =
     push_boxes fmul (Suc i) img_blocks heap"
| "push_boxes fmul i ((Some b, img_block) # img_blocks) heap =
     (let area = fmul (width b) (height b)
      in if area = 0 then push_boxes fmul (Suc i) img_blocks heap
         else push_boxes fmul (Suc i) img_blocks (heappush heap ((- area, i), img_block)))"

text \<open>
  What the image library does with the bytes it is given to open, verify, convert and
  save: it gives the JPEG bytes, or raises an exception of the classes \<^verbatim>\<open>IOError\<close>,
  \<^verbatim>\<open>OSError\<close>, \<^verbatim>\<open>ValueError\<close>, or raises an exception of another class (\<^verbatim>\<open>SyntaxError\<close> for
  one). It is a parameter \<open>to_jpeg\<close> of the model.
\<close>

datatype jpeg_outcome = Jpeg bytes | RaisesIOOrValueError | RaisesOtherClass

text \<open>
  \<^verbatim>\<open>convert_to_jpeg\<close> of the packaged module, which catches the three classes, and of the
  legacy module, which catches every exception.
\<close>

definition convert_to_jpeg ::
  "(bytes \<Rightarrow> jpeg_outcome) \<Rightarrow> bytes \<Rightarrow> string \<Rightarrow> py_error + bytes \<times> string" where
  "convert_to_jpeg to_jpeg img_bytes img_extension =
     (case to_jpeg img_bytes of
        Jpeg jpeg \<Rightarrow> Inr (jpeg, ''.jpg'')
      | RaisesIOOrValueError \<Rightarrow> Inr (img_bytes, img_extension)
      | RaisesOtherClass \<Rightarrow> Inl OtherException)"

definition legacy_convert_to_jpeg ::
  "(bytes \<Rightarrow> jpeg_outcome) \<Rightarrow> bytes \<Rightarrow> string \<Rightarrow> bytes \<times> string" where
  "legacy_convert_to_jpeg to_jpeg img_bytes img_extension =
     (case to_jpeg img_bytes of
        Jpeg jpeg \<Rightarrow> (jpeg, ''.jpg'')
      | RaisesIOOrValueError \<Rightarrow> (img_bytes, img_extension)
      | RaisesOtherClass \<Rightarrow> (img_bytes, img_extension))"

definition EXTRACTED_IMAGES_DIR :: string where
  "EXTRACTED_IMAGES_DIR = ''extracted_images''"

text \<open>
  The end of \<^verbatim>\<open>get_img\<close>, after the resolver has returned: the image is converted and
  written, and its path returned. (The write itself is taken to succeed.)
\<close>

definition save_image ::
  "(bytes \<Rightarrow> jpeg_outcome) \<Rightarrow> string \<Rightarrow> (py_error + image_data) \<times> 'n net
    \<Rightarrow> (py_error + string option \<times> string option) \<times> 'n net" where
  "save_image to_jpeg img_name resolved =
     (case resolved of
        (Inl e, st) \<Rightarrow> (Inl e, st)
      | (Inr (img_bytes, img_url, img_extension), st) \<Rightarrow>
          if truthy img_bytes \<and> truthy img_url \<and> truthy img_extension then
            (case convert_to_jpeg to_jpeg (the img_bytes) (the img_extension) of
               Inl e \<Rightarrow> (Inl e, st)
             | Inr (jpeg_bytes, extension) \<Rightarrow>
                 (let img_path = EXTRACTED_IMAGES_DIR @ ''/'' @ img_name @ extension
                  in (Inr (Some img_path, img_url), st\<lparr>files := (files st)(img_path \<mapsto> jpeg_bytes)\<rparr>)))
          else (Inr (None, None), st))"

text \<open>\<^verbatim>\<open>get_img\<close> of the packaged module, on the image elements of the page with their boxes.\<close>

definition get_img ::
  "(rat \<Rightarrow> rat \<Rightarrow> rat) \<Rightarrow> 'n http \<Rightarrow> (bytes \<Rightarrow> jpeg_outcome)
    \<Rightarrow> (box option \<times> img_block) list \<Rightarrow> string \<Rightarrow> string
    \<Rightarrow> 'n net \<Rightarrow> (py_error + string option \<times> string option) \<times> 'n net" where
  "get_img fmul env to_jpeg img_blocks base_url img_name st =
     (let heap = push_boxes fmul 0 img_blocks []
      in if heap = [] then (Inr (None, None), st)
         else
           (let img_to_download = snd (heap_first fst heap)
            in save_image to_jpeg img_name
                 (extract_best_image_from_url (download_image_from_url env) img_to_download
                    base_url st)))"

text \<open>
  \<^verbatim>\<open>get_img\<close> of the legacy module: \<^verbatim>\<open>heap[0]\<close> without a test of the heap, which raises
  \<^verbatim>\<open>IndexError\<close> on the empty list; the test after the download is \<^verbatim>\<open>if img_bytes\<close>, and the
  directory is \<^verbatim>\<open>final_results/extracted_images\<close>. The resolver it calls uses the legacy
  download.
\<close>

definition legacy_save_image ::
  "(bytes \<Rightarrow> jpeg_outcome) \<Rightarrow> string \<Rightarrow> (py_error + image_data) \<times> 'n net
    \<Rightarrow> (py_error + string option \<times> string option) \<times> 'n net" where
  "legacy_save_image to_jpeg img_name resolved =
     (case resolved of
        (Inl e, st) \<Rightarrow> (Inl e, st)
      | (Inr (img_bytes, img_url, img_extension), st) \<Rightarrow>
          if truthy img_bytes then
            (case legacy_convert_to_jpeg to_jpeg (the img_bytes)
                    (case img_extension of None \<Rightarrow> ''None'' | Some e \<Rightarrow> e) of
               (jpeg_bytes, extension) \<Rightarrow>
                 (let img_path = ''final_results/extracted_images/'' @ img_name @ extension
                  in (Inr (Some img_path, img_url), st\<lparr>files := (files st)(img_path \<mapsto> jpeg_bytes)\<rparr>)))
          else (Inr (None, None), st))"

definition legacy_get_img ::
  "(rat \<Rightarrow> rat \<Rightarrow> rat) \<Rightarrow> 'n http \<Rightarrow> (bytes \<Rightarrow> jpeg_outcome)
    \<Rightarrow> (box option \<times> img_block) list \<Rightarrow> string \<Rightarrow> string
    \<Rightarrow> 'n net \<Rightarrow> (py_error + string option \<times> string option) \<times> 'n net" where
  "legacy_get_img fmul env to_jpeg img_blocks base_url img_name st =
     (let heap = push_boxes fmul 0 img_blocks []
      in if heap = [] then (Inl IndexError, st)
         else
           (let img_to_download = snd (heap_first fst heap)
            in legacy_save_image to_jpeg img_name
                 (extract_best_image_from_url (legacy_download_image_from_url env)
                    img_to_download base_url st)))"

text \<open>
  The area of the element at an index, if the element qualifies: it has a box, and the
  area of the box, as the code computes it, is not zero.
\<close>

definition area_at ::
  "(rat \<Rightarrow> rat \<Rightarrow> rat) \<Rightarrow> (box option \<times> img_block) list \<Rightarrow> nat \<Rightarrow> rat option" where
  "area_at fmul img_blocks i =
     (if i < length img_blocks then
        (case fst (img_blocks ! i) of
           None \<Rightarrow> None
         | Some b \<Rightarrow>
             if fmul (width b) (height b) = 0 then None else Some (fmul (width b) (height b)))
      else None)"

subsection \<open>Example networks\<close>

text \<open>
  A network on which every request fails with \<^verbatim>\<open>aiohttp.ClientError\<close>, and one that serves
  a PNG of three bytes at every URL; \<^verbatim>\<open>urljoin\<close> is simplified to concatenation.
\<close>

definition offline :: "unit http" where
  "offline = \<lparr>env_urljoin = (\<lambda>base url. Inr (base @ url)),
              env_guess_extension = (\<lambda>t. if t = ''image/png'' then Some ''.png'' else None),
              env_get = (\<lambda>url referer n. (RaisesClientError, n))\<rparr>"

definition png_response :: response where
  "png_response = \<lparr>resp_status = 200, resp_content_type = Some ''image/png; charset=binary'',
                    resp_body = Returns ''PNG''\<rparr>"

definition serves_png :: "unit http" where
  "serves_png = \<lparr>env_urljoin = (\<lambda>base url. Inr (base @ url)),
              env_guess_extension = (\<lambda>t. if t = ''image/png'' then Some ''.png'' else None),
              env_get = (\<lambda>url referer n. (Returns png_response, n))\<rparr>"

definition idle :: "unit net" where
  "idle = \<lparr>net_world = (), requests = [], files = Map.empty\<rparr>"

subsection \<open>Reading the download log\<close>

text \<open>
  The log \<open>tried\<close> of a loop that attempts the candidates \<open>cs\<close> in order and stops at the
  first download that returns non-empty bytes: the URLs attempted are a prefix of the
  candidates and every attempt but the last returned nothing; the loop returned an image
  (\<open>Inr (Some d)\<close>) when the last attempt succeeded, it ended (\<open>Inr None\<close>) when every
  candidate was attempted in vain, and it raised (\<open>Inl e\<close>) in its last attempt.
\<close>

definition first_success_log ::
  "string list \<Rightarrow> (string \<times> bool) list \<Rightarrow> py_error + image_data option \<Rightarrow> bool" where
  "first_success_log cs tried r =
     (prefix (map fst tried) cs \<and> list_all (\<lambda>e. \<not> snd e) (butlast tried)
      \<and> (case r of
            Inr (Some d) \<Rightarrow> tried \<noteq> [] \<and> snd (last tried) \<and> truthy (fst d)
          | Inr None \<Rightarrow> map fst tried = cs \<and> list_all (\<lambda>e. \<not> snd e) tried
          | Inl e \<Rightarrow> tried \<noteq> [] \<and> \<not> snd (last tried)))"







subsection \<open>The order of the weighted attempts, in the words of the specification\<close>

text \<open>
  The pairs by descending weight, and by ascending URL where weights are equal (the order
  of the tuples \<^verbatim>\<open>(-value, url)\<close>).
\<close>

definition descending_weight_order :: "(string \<times> int) list \<Rightarrow> (string \<times> int) list" where
  "descending_weight_order srcset_pairs =
     map (\<lambda>(neg_value, url). (url, - neg_value))
       (sort (map (\<lambda>(url, v). (- v, url)) srcset_pairs))"

text \<open>
  The image elements of a page on which no image is laid out: one element without a box,
  one with a box of width zero.
\<close>

definition hidden_images :: "(box option \<times> img_block) list" where
  "hidden_images =
     [(None, [(''src'', ''logo.png'')]),
      (Some \<lparr>width = 0, height = 40\<rparr>, [(''src'', ''pixel.gif'')])]"

text \<open>Three elements: one without a box, and two of the same area, 6.\<close>

definition gallery_images :: "(box option \<times> img_block) list" where
  "gallery_images =
     [(None, [(''src'', ''a.png'')]),
      (Some \<lparr>width = 2, height = 3\<rparr>, [(''src'', ''b.png'')]),
      (Some \<lparr>width = 3, height = 2\<rparr>, [(''src'', ''c.png'')])]"

section \<open>Properties\<close>

subsection \<open>The tiers and the navigation log\<close>

lemma visit_visits:
  "visit ext pn url s = ((p, u), s') \<Longrightarrow> visits s' = visits s @ [(url, p)]"
  by (auto simp: visit_def split: prod.splits)

lemma tier_log_Nil: "\<not> truthy p \<Longrightarrow> tier_log [] p"
  by (simp add: tier_log_def falsy_all_def)

lemma tier_log_hit: "truthy p \<Longrightarrow> tier_log [(url, p)] p"
  by (simp add: tier_log_def falsy_all_def)

lemma tier_log_miss: "\<not> truthy q \<Longrightarrow> tier_log new p \<Longrightarrow> tier_log ((url, q) # new) p"
  by (cases new) (auto simp: tier_log_def falsy_all_def)

lemma tier_log_append: "falsy_all xs \<Longrightarrow> tier_log ys p \<Longrightarrow> tier_log (xs @ ys) p"
  by (induction xs) (auto simp: falsy_all_def intro: tier_log_miss)

lemma tier_log_falsy: "\<not> truthy p \<Longrightarrow> tier_log new p \<Longrightarrow> falsy_all new"
  by (simp add: tier_log_def)

lemma not_truthy_None: "\<not> truthy None"
  by (simp add: truthy_def)

lemma wikipedia_loop_log:
  "wikipedia_loop ext pn urls bad s = ((p, u, bad'), s') \<Longrightarrow>
     \<exists>new. visits s' = visits s @ new \<and> tier_log new p \<and> bad \<subseteq> bad'"
proof (induction urls arbitrary: bad s)
  case Nil
  then show ?case by (auto simp: tier_log_Nil not_truthy_None)
next
  case (Cons url urls)
  show ?case
  proof (cases "str_in ''wikipedia'' url")
    case False
    with Cons.prems have "wikipedia_loop ext pn urls bad s = ((p, u, bad'), s')" by simp
    from Cons.IH[OF this] show ?thesis by auto
  next
    case True
    obtain q v s1 where v: "visit ext pn url s = ((q, v), s1)"
      by (metis prod.exhaust)
    show ?thesis
    proof (cases "truthy q")
      case t: True
      with True v Cons.prems have "p = q" "s' = s1" "bad' = bad" by auto
      with v t show ?thesis
        by (intro exI[of _ "[(url, q)]"]) (auto simp: visit_visits tier_log_hit)
    next
      case f: False
      with True v Cons.prems
      have "wikipedia_loop ext pn urls (insert url bad) s1 = ((p, u, bad'), s')"
        by simp
      from Cons.IH[OF this] obtain new where "visits s' = visits s1 @ new" "tier_log new p"
        "insert url bad \<subseteq> bad'"
        by auto
      with v f show ?thesis
        by (intro exI[of _ "(url, q) # new"]) (auto simp: visit_visits tier_log_miss)
    qed
  qed
qed

lemma try_museum_urls_log:
  "try_museum_urls ext pn urls bad s = ((p, u, loc, bad'), s') \<Longrightarrow>
     \<exists>new. visits s' = visits s @ new \<and> tier_log new p \<and> bad \<subseteq> bad'
       \<and> fst ` set new \<inter> bad = {}
       \<and> (if truthy p then first_museum KNOWN_MUSEUMS (fst (last new)) = Some loc
           else loc = ''Unknown location'')"
proof (induction urls arbitrary: bad s)
  case Nil
  then show ?case by (auto simp: tier_log_Nil not_truthy_None)
next
  case (Cons url urls)
  show ?case
  proof (cases "url \<in> bad \<or> first_museum KNOWN_MUSEUMS url = None")
    case True
    with Cons.prems have "try_museum_urls ext pn urls bad s = ((p, u, loc, bad'), s')"
      by (auto split: if_splits)
    from Cons.IH[OF this] show ?thesis by auto
  next
    case False
    then obtain name where nm: "url \<notin> bad" "first_museum KNOWN_MUSEUMS url = Some name"
      by auto
    obtain q v s1 where v: "visit ext pn url s = ((q, v), s1)"
      by (metis prod.exhaust)
    show ?thesis
    proof (cases "truthy q")
      case t: True
      with nm v Cons.prems have "p = q" "s' = s1" "bad' = bad" "loc = name" by auto
      with v t nm show ?thesis
        by (intro exI[of _ "[(url, q)]"]) (auto simp: visit_visits tier_log_hit)
    next
      case f: False
      with nm v Cons.prems
      have "try_museum_urls ext pn urls (insert url bad) s1 = ((p, u, loc, bad'), s')"
        by simp
      from Cons.IH[OF this] obtain new where n: "visits s' = visits s1 @ new" "tier_log new p"
        "insert url bad \<subseteq> bad'" "fst ` set new \<inter> insert url bad = {}"
        "if truthy p then first_museum KNOWN_MUSEUMS (fst (last new)) = Some loc
           else loc = ''Unknown location''"
        by auto
      have ne: "truthy p \<Longrightarrow> new \<noteq> []"
        using n(2) by (auto simp: tier_log_def)
      from n v f nm ne show ?thesis
        by (intro exI[of _ "(url, q) # new"]) (auto simp: visit_visits tier_log_miss)
    qed
  qed
qed

lemma try_remaining_urls_log:
  "try_remaining_urls ext pn urls bad s = ((p, u), s') \<Longrightarrow>
     \<exists>new. visits s' = visits s @ new \<and> tier_log new p \<and> fst ` set new \<inter> bad = {}"
proof (induction urls arbitrary: s)
  case Nil
  then show ?case by (auto simp: tier_log_Nil not_truthy_None)
next
  case (Cons url urls)
  show ?case
  proof (cases "url \<in> bad")
    case True
    with Cons.prems have "try_remaining_urls ext pn urls bad s = ((p, u), s')"
      by auto
    from Cons.IH[OF this] show ?thesis by auto
  next
    case nb: False
    obtain q v s1 where v: "visit ext pn url s = ((q, v), s1)"
      by (metis prod.exhaust)
    show ?thesis
    proof (cases "truthy q")
      case t: True
      with nb v Cons.prems have "p = q" "s' = s1" by auto
      with v t nb show ?thesis
        by (intro exI[of _ "[(url, q)]"]) (auto simp: visit_visits tier_log_hit)
    next
      case f: False
      with nb v Cons.prems
      have "try_remaining_urls ext pn urls bad s1 = ((p, u), s')"
        by simp
      from Cons.IH[OF this] obtain new where n: "visits s' = visits s1 @ new" "tier_log new p"
        "fst ` set new \<inter> bad = {}"
        by auto
      from n v f nb show ?thesis
        by (intro exI[of _ "(url, q) # new"]) (auto simp: visit_visits tier_log_miss)
    qed
  qed
qed

lemma new_visits_eq: "visits s' = visits s @ new \<Longrightarrow> new_visits s s' = new"
  by (simp add: new_visits_def)

text \<open>The four ways through the dispatcher for a non-empty list.\<close>

lemma process_a_painting_cases:
  fixes ext :: "'w extractor"
  assumes w: "try_wikipedia_urls ext pn (url0 # rest) s = ((p1, u1, bad1), s1)"
    and m: "try_museum_urls ext pn (url0 # rest) bad1 s1 = ((p2, u2, loc2, bad2), s2)"
    and r: "try_remaining_urls ext pn (url0 # rest) bad2 s2 = ((p3, u3), s3)"
  shows "process_a_painting ext pn (UrlList (url0 # rest)) names res s =
     (if truthy p1 then
        (store_result names pn res p1 url0 (detect_museum_from_urls (url0 # rest)) (or_empty u1), s1)
      else if truthy p2 then
        (store_result names pn res p2 url0 loc2 (or_empty u2), s2)
      else if truthy p3 then
        (store_result names pn res p3 url0 (detect_museum_from_urls (url0 # rest)) (or_empty u3), s3)
      else
        (store_result names pn res None
           ''No image was downloaded even though some urls were found.''
           (detect_museum_from_urls (url0 # rest)) '''', s3))"
  using w m r unfolding process_a_painting_def by (simp add: Let_def)

lemma wikipedia_loop_invalid:
  "wikipedia_loop ext pn urls bad s = ((p, u, bad'), s') \<Longrightarrow> \<not> truthy p \<Longrightarrow>
     bad' = bad \<union> fst ` set (new_visits s s')"
proof (induction urls arbitrary: bad s)
  case Nil
  then show ?case by (auto simp: new_visits_def)
next
  case (Cons url urls)
  show ?case
  proof (cases "str_in ''wikipedia'' url")
    case False
    with Cons show ?thesis by simp
  next
    case True
    obtain q v s1 where v: "visit ext pn url s = ((q, v), s1)"
      by (metis prod.exhaust)
    show ?thesis
    proof (cases "truthy q")
      case t: True
      with True v Cons.prems show ?thesis by auto
    next
      case f: False
      with True v Cons.prems
      have run: "wikipedia_loop ext pn urls (insert url bad) s1 = ((p, u, bad'), s')"
        by simp
      from wikipedia_loop_log[OF run] obtain new where n: "visits s' = visits s1 @ new"
        by auto
      with v have "new_visits s s' = (url, q) # new_visits s1 s'"
        by (simp add: new_visits_def visit_visits)
      with Cons.IH[OF run Cons.prems(2)] show ?thesis by auto
    qed
  qed
qed

lemma try_museum_urls_invalid:
  "try_museum_urls ext pn urls bad s = ((p, u, loc, bad'), s') \<Longrightarrow> \<not> truthy p \<Longrightarrow>
     bad' = bad \<union> fst ` set (new_visits s s')"
proof (induction urls arbitrary: bad s)
  case Nil
  then show ?case by (auto simp: new_visits_def)
next
  case (Cons url urls)
  show ?case
  proof (cases "url \<in> bad \<or> first_museum KNOWN_MUSEUMS url = None")
    case True
    with Cons.prems have "try_museum_urls ext pn urls bad s = ((p, u, loc, bad'), s')"
      by (auto split: if_splits)
    from Cons.IH[OF this Cons.prems(2)] show ?thesis .
  next
    case False
    then obtain name where nm: "url \<notin> bad" "first_museum KNOWN_MUSEUMS url = Some name"
      by auto
    obtain q v s1 where v: "visit ext pn url s = ((q, v), s1)"
      by (metis prod.exhaust)
    show ?thesis
    proof (cases "truthy q")
      case t: True
      with nm v Cons.prems show ?thesis by auto
    next
      case f: False
      with nm v Cons.prems
      have run: "try_museum_urls ext pn urls (insert url bad) s1 = ((p, u, loc, bad'), s')"
        by simp
      from try_museum_urls_log[OF run] obtain new where n: "visits s' = visits s1 @ new"
        by auto
      with v have "new_visits s s' = (url, q) # new_visits s1 s'"
        by (simp add: new_visits_def visit_visits)
      with Cons.IH[OF run Cons.prems(2)] show ?thesis by auto
    qed
  qed
qed

lemma detect_museum_from_urls_spec:
  "detect_museum_from_urls urls = first_matching_url_location urls"
  by (induction urls) (auto simp: first_matching_url_location_def split: option.splits)

lemma store_result_Some:
  "names pn = Some plaque \<Longrightarrow>
     store_result names pn res path src loc iurl =
       Inr (res(pn \<mapsto> \<lparr>plaque_text = plaque, image_path = path, source_or_status = src,
                       location = loc, image_url = iurl\<rparr>))"
  by (simp add: store_result_def)

lemma falsy_all_butlast: "falsy_all xs \<Longrightarrow> falsy_all (butlast xs)"
  by (induction xs) (auto simp: falsy_all_def)

lemma falsy_all_last: "falsy_all xs \<Longrightarrow> xs \<noteq> [] \<Longrightarrow> \<not> truthy (snd (last xs))"
  by (induction xs) (auto simp: falsy_all_def)

text \<open>The whole run as one stretch of the log.\<close>

lemma process_a_painting_run:
  fixes ext :: "'w extractor"
  assumes run: "process_a_painting ext pn (UrlList (url0 # rest)) names res s = (r, s')"
    and plaque: "names pn = Some plaque"
    and w: "try_wikipedia_urls ext pn (url0 # rest) s = ((p1, u1, bad1), s1)"
    and m: "try_museum_urls ext pn (url0 # rest) bad1 s1 = ((p2, u2, loc2, bad2), s2)"
    and t: "try_remaining_urls ext pn (url0 # rest) bad2 s2 = ((p3, u3), s3)"
  shows "\<exists>new p loc iurl.
      visits s' = visits s @ new \<and> tier_log new p
      \<and> r = Inr (res(pn \<mapsto> \<lparr>plaque_text = plaque, image_path = (if truthy p then p else None),
             source_or_status = (if truthy p then url0
                else ''No image was downloaded even though some urls were found.''),
             location = loc, image_url = iurl\<rparr>))
      \<and> loc = (if \<not> truthy p1 \<and> truthy p2 then the (first_museum KNOWN_MUSEUMS (fst (last new)))
               else detect_museum_from_urls (url0 # rest))
      \<and> s' = (if truthy p1 then s1 else if truthy p2 then s2 else s3)
      \<and> p = (if truthy p1 then p1 else if truthy p2 then p2 else p3)"
proof -
  from w obtain new1 where n1: "visits s1 = visits s @ new1" "tier_log new1 p1"
    unfolding try_wikipedia_urls_def by (blast dest: wikipedia_loop_log)
  from try_museum_urls_log[OF m] obtain new2 where n2: "visits s2 = visits s1 @ new2"
    "tier_log new2 p2"
    "if truthy p2 then first_museum KNOWN_MUSEUMS (fst (last new2)) = Some loc2
     else loc2 = ''Unknown location''"
    by blast
  from try_remaining_urls_log[OF t] obtain new3 where n3: "visits s3 = visits s2 @ new3"
    "tier_log new3 p3"
    by blast
  note eq = process_a_painting_cases[OF w m t, of names res]
  show ?thesis
  proof (cases "truthy p1")
    case True
    with eq run plaque n1 show ?thesis
      by (intro exI[of _ new1] exI[of _ p1]) (auto simp: store_result_Some)
  next
    case f1: False
    show ?thesis
    proof (cases "truthy p2")
      case True
      from True n2(2) have ne: "new2 \<noteq> []" by (simp add: tier_log_def)
      have tl: "tier_log (new1 @ new2) p2"
        using f1 n1(2) n2(2) by (auto intro: tier_log_append tier_log_falsy)
      from True f1 eq run plaque n1 n2 ne tl show ?thesis
        by (intro exI[of _ "new1 @ new2"] exI[of _ p2]) (auto simp: store_result_Some)
    next
      case f2: False
      have tl: "tier_log (new1 @ new2 @ new3) p3"
        using f1 f2 n1(2) n2(2) n3(2)
        by (auto intro!: tier_log_append intro: tier_log_falsy)
      from f1 f2 eq run plaque n1 n2 n3 tl show ?thesis
        by (intro exI[of _ "new1 @ new2 @ new3"] exI[of _ p3]) (auto simp: store_result_Some)
    qed
  qed
qed

lemmas example_defs = mona_wiki_def mona_other_def mona_web_def mona_names_def
  persistence_url_def met_url_def moma_url_def moma_web_def scripted_pages_def
  fresh_session_def KNOWN_MUSEUMS_def

lemmas run_defs = process_a_painting_def try_wikipedia_urls_def visit_def truthy_def
  or_empty_def store_result_def

subsection \<open>C1: a success ends the run\<close>

text \<open>
  Claim C1. For a painting with a non-empty list of candidate URLs, once a tier produces a
  non-empty image path, \<^verbatim>\<open>process_a_painting\<close> writes the success record and returns, and
  no URL of a later tier is attempted. Here: if the Wikipedia tier returns a path, the
  session at the end is the session as that tier left it, and the record holds that path;
  if the Wikipedia tier returns none and the museum tier returns one, the session at the end
  is the one the museum tier left; and over the whole run, every navigation but the last
  returned no path, and the record holds the path of the last navigation if that one
  succeeded, and no path otherwise.
\<close>

theorem process_a_painting_short_circuit:
  fixes ext :: "'w extractor"
  assumes run: "process_a_painting ext pn (UrlList (url0 # rest)) names res s = (r, s')"
    and plaque: "names pn = Some plaque"
    and w: "try_wikipedia_urls ext pn (url0 # rest) s = ((p1, u1, bad1), s1)"
    and m: "try_museum_urls ext pn (url0 # rest) bad1 s1 = ((p2, u2, loc2, bad2), s2)"
  shows "(truthy p1 \<longrightarrow> s' = s1 \<and> (\<exists>rec. r = Inr (res(pn \<mapsto> rec)) \<and> image_path rec = p1))
    \<and> (\<not> truthy p1 \<and> truthy p2 \<longrightarrow>
          s' = s2 \<and> (\<exists>rec. r = Inr (res(pn \<mapsto> rec)) \<and> image_path rec = p2))
    \<and> (\<exists>new. visits s' = visits s @ new
          \<and> list_all (\<lambda>e. \<not> truthy (snd e)) (butlast new)
          \<and> (\<exists>rec. r = Inr (res(pn \<mapsto> rec))
                \<and> image_path rec =
                    (if new \<noteq> [] \<and> truthy (snd (last new)) then snd (last new) else None)))"
proof -
  obtain p3 u3 s3 where t: "try_remaining_urls ext pn (url0 # rest) bad2 s2 = ((p3, u3), s3)"
    by (metis prod.exhaust)
  from process_a_painting_run[OF run plaque w m t]
  obtain new p loc iurl where n: "visits s' = visits s @ new" "tier_log new p"
    "r = Inr (res(pn \<mapsto> \<lparr>plaque_text = plaque, image_path = (if truthy p then p else None),
             source_or_status = (if truthy p then url0
                else ''No image was downloaded even though some urls were found.''),
             location = loc, image_url = iurl\<rparr>))"
    "s' = (if truthy p1 then s1 else if truthy p2 then s2 else s3)"
    "p = (if truthy p1 then p1 else if truthy p2 then p2 else p3)"
    by blast
  have a: "truthy p1 \<longrightarrow> s' = s1 \<and> (\<exists>rec. r = Inr (res(pn \<mapsto> rec)) \<and> image_path rec = p1)"
    using n(3,4,5) by auto
  have b: "\<not> truthy p1 \<and> truthy p2 \<longrightarrow>
          s' = s2 \<and> (\<exists>rec. r = Inr (res(pn \<mapsto> rec)) \<and> image_path rec = p2)"
    using n(3,4,5) by auto
  have bl: "list_all (\<lambda>e. \<not> truthy (snd e)) (butlast new)"
    using n(2) falsy_all_butlast[of new] unfolding tier_log_def falsy_all_def
    by (auto split: if_splits)
  have path: "(if truthy p then p else None) =
      (if new \<noteq> [] \<and> truthy (snd (last new)) then snd (last new) else None)"
    using n(2) falsy_all_last[of new] unfolding tier_log_def
    by (auto split: if_splits)
  have c: "\<exists>new. visits s' = visits s @ new
          \<and> list_all (\<lambda>e. \<not> truthy (snd e)) (butlast new)
          \<and> (\<exists>rec. r = Inr (res(pn \<mapsto> rec))
                \<and> image_path rec =
                    (if new \<noteq> [] \<and> truthy (snd (last new)) then snd (last new) else None))"
    using n(1,3) bl path by (intro exI[of _ new]) auto
  from a b c show ?thesis by blast
qed

text \<open>
  The scenario of the specification: the Wikipedia page of the Mona Lisa yields its image,
  and \<^verbatim>\<open>example.com\<close> is never visited.
\<close>

lemma mona_run:
  "process_a_painting mona_web ''Mona Lisa'' (UrlList [mona_wiki, mona_other]) mona_names
       Map.empty fresh_session =
     (Inr [''Mona Lisa'' \<mapsto>
        \<lparr>plaque_text = ''Mona Lisa, Leonardo da Vinci'',
         image_path = Some ''extracted_images/Mona Lisa.jpg'',
         source_or_status = mona_wiki,
         location = ''Unknown location'',
         image_url = ''https://upload.wikimedia.org/mona.jpg''\<rparr>],
      \<lparr>world = (), visits = [(mona_wiki, Some ''extracted_images/Mona Lisa.jpg'')]\<rparr>)"
  by (simp add: run_defs example_defs)

lemma mona_wiki_tier:
  "try_wikipedia_urls mona_web ''Mona Lisa'' [mona_wiki, mona_other] fresh_session =
     ((Some ''extracted_images/Mona Lisa.jpg'', Some ''https://upload.wikimedia.org/mona.jpg'', {}),
      \<lparr>world = (), visits = [(mona_wiki, Some ''extracted_images/Mona Lisa.jpg'')]\<rparr>)"
  by (simp add: run_defs example_defs)

lemma mona_museum_tier:
  "try_museum_urls mona_web ''Mona Lisa'' [mona_wiki, mona_other] {}
       \<lparr>world = (), visits = [(mona_wiki, Some ''extracted_images/Mona Lisa.jpg'')]\<rparr> =
     ((None, None, ''Unknown location'', {}),
      \<lparr>world = (), visits = [(mona_wiki, Some ''extracted_images/Mona Lisa.jpg'')]\<rparr>)"
  by (simp add: run_defs example_defs)

theorem process_a_painting_short_circuit_witness:
  "process_a_painting mona_web ''Mona Lisa'' (UrlList [mona_wiki, mona_other]) mona_names
       Map.empty fresh_session =
     (Inr [''Mona Lisa'' \<mapsto>
        \<lparr>plaque_text = ''Mona Lisa, Leonardo da Vinci'',
         image_path = Some ''extracted_images/Mona Lisa.jpg'',
         source_or_status = mona_wiki,
         location = ''Unknown location'',
         image_url = ''https://upload.wikimedia.org/mona.jpg''\<rparr>],
      \<lparr>world = (), visits = [(mona_wiki, Some ''extracted_images/Mona Lisa.jpg'')]\<rparr>)
   \<and> mona_names ''Mona Lisa'' = Some ''Mona Lisa, Leonardo da Vinci''
   \<and> truthy (Some ''extracted_images/Mona Lisa.jpg'')
   \<and> snd (process_a_painting mona_web ''Mona Lisa'' (UrlList [mona_wiki, mona_other]) mona_names
          Map.empty fresh_session) =
       snd (try_wikipedia_urls mona_web ''Mona Lisa'' [mona_wiki, mona_other] fresh_session)
   \<and> mona_other \<notin> fst ` set (visits (snd (process_a_painting mona_web ''Mona Lisa''
          (UrlList [mona_wiki, mona_other]) mona_names Map.empty fresh_session)))"
proof -
  have plaque: "mona_names ''Mona Lisa'' = Some ''Mona Lisa, Leonardo da Vinci''"
    by (simp add: mona_names_def)
  have tr: "truthy (Some ''extracted_images/Mona Lisa.jpg'')"
    by (simp add: truthy_def)
  from process_a_painting_short_circuit[OF mona_run plaque mona_wiki_tier mona_museum_tier] tr
  have "\<lparr>world = (), visits = [(mona_wiki, Some ''extracted_images/Mona Lisa.jpg'')]\<rparr> =
      snd (try_wikipedia_urls mona_web ''Mona Lisa'' [mona_wiki, mona_other] fresh_session)"
    by (simp add: mona_wiki_tier)
  moreover have "mona_other \<noteq> mona_wiki"
    by (simp add: mona_other_def mona_wiki_def)
  ultimately show ?thesis
    using plaque tr by (simp add: mona_run mona_wiki_tier)
qed

subsection \<open>C2: the entry guard\<close>

text \<open>
  Claim C2. For a painting whose candidate URL input is the empty list or the error string
  of the search stage, \<^verbatim>\<open>process_a_painting\<close> records the fixed message
  \<^verbatim>\<open>No image was downloaded (no urls were found).\<close> with the location
  \<^verbatim>\<open>Unknown location\<close>, and opens no page: the session (world and navigation log) is
  returned as it was. The painting is one of the batch: its name has a plaque text.
\<close>

theorem no_candidates_entry_guard:
  assumes guard: "urls_in = UrlList [] \<or> urls_in = ErrorString msg"
    and plaque: "names pn = Some plaque"
  shows "process_a_painting ext pn urls_in names res s =
     (Inr (res(pn \<mapsto>
        \<lparr>plaque_text = plaque, image_path = None,
         source_or_status = ''No image was downloaded (no urls were found).'',
         location = ''Unknown location'',
         image_url = ''No url to download the image was located.''\<rparr>)), s)"
  using guard plaque by (auto simp: process_a_painting_def store_result_def)

theorem no_candidates_entry_guard_witness:
  "process_a_painting mona_web ''Mona Lisa'' (ErrorString ''Error: daily quota exceeded'')
       mona_names Map.empty fresh_session =
     (Inr [''Mona Lisa'' \<mapsto>
        \<lparr>plaque_text = ''Mona Lisa, Leonardo da Vinci'', image_path = None,
         source_or_status = ''No image was downloaded (no urls were found).'',
         location = ''Unknown location'',
         image_url = ''No url to download the image was located.''\<rparr>], fresh_session)
   \<and> process_a_painting mona_web ''Mona Lisa'' (UrlList []) mona_names Map.empty fresh_session =
     (Inr [''Mona Lisa'' \<mapsto>
        \<lparr>plaque_text = ''Mona Lisa, Leonardo da Vinci'', image_path = None,
         source_or_status = ''No image was downloaded (no urls were found).'',
         location = ''Unknown location'',
         image_url = ''No url to download the image was located.''\<rparr>], fresh_session)
   \<and> visits fresh_session = []"
proof -
  have plaque: "mona_names ''Mona Lisa'' = Some ''Mona Lisa, Leonardo da Vinci''"
    by (simp add: mona_names_def)
  have a: "ErrorString ''Error: daily quota exceeded'' = UrlList []
     \<or> ErrorString ''Error: daily quota exceeded'' = ErrorString ''Error: daily quota exceeded''"
    by simp
  have b: "UrlList [] = UrlList [] \<or> UrlList [] = ErrorString []"
    by simp
  show ?thesis
    using no_candidates_entry_guard[where urls_in = "ErrorString ''Error: daily quota exceeded''"
        and msg = "''Error: daily quota exceeded''" and ext = mona_web and res = Map.empty
        and s = fresh_session and names = mona_names and pn = "''Mona Lisa''", OF a plaque]
      no_candidates_entry_guard[where urls_in = "UrlList []" and msg = "[]" and ext = mona_web
        and res = Map.empty and s = fresh_session and names = mona_names
        and pn = "''Mona Lisa''", OF b plaque]
    by (simp add: fresh_session_def)
qed

subsection \<open>C5: the source page URL of a success record\<close>

lemma tier_log_success_iff: "tier_log new p \<Longrightarrow> truthy p = (\<exists>e \<in> set new. truthy (snd e))"
proof (cases "truthy p")
  case True
  assume "tier_log new p"
  with True have "new \<noteq> []" "snd (last new) = p" by (simp_all add: tier_log_def)
  with True show ?thesis by (metis last_in_set)
next
  case False
  assume "tier_log new p"
  with False show ?thesis by (auto simp: tier_log_def falsy_all_def list_all_iff)
qed

text \<open>
  Claim C5, as amended. In the packaged module, for a painting with a non-empty list of
  candidate URLs, the record holds an image path exactly when some navigation of the run
  returned one, and then its source page URL is the first candidate URL of the list,
  whichever URL yielded the image. (The legacy module records the URL of the page that
  yielded the image instead: see the counterexample.)
\<close>

theorem source_page_url_is_first_candidate:
  fixes ext :: "'w extractor"
  assumes run: "process_a_painting ext pn (UrlList (url0 # rest)) names res s = (r, s')"
    and plaque: "names pn = Some plaque"
  shows "\<exists>rec. r = Inr (res(pn \<mapsto> rec))
     \<and> (image_path rec \<noteq> None) = (\<exists>e \<in> set (new_visits s s'). truthy (snd e))
     \<and> (image_path rec \<noteq> None \<longrightarrow> source_or_status rec = url0)"
proof -
  obtain p1 u1 bad1 s1 where w: "try_wikipedia_urls ext pn (url0 # rest) s = ((p1, u1, bad1), s1)"
    by (metis prod.exhaust)
  obtain p2 u2 loc2 bad2 s2
    where m: "try_museum_urls ext pn (url0 # rest) bad1 s1 = ((p2, u2, loc2, bad2), s2)"
    by (metis prod.exhaust)
  obtain p3 u3 s3 where t: "try_remaining_urls ext pn (url0 # rest) bad2 s2 = ((p3, u3), s3)"
    by (metis prod.exhaust)
  from process_a_painting_run[OF run plaque w m t]
  obtain new p loc iurl where n: "visits s' = visits s @ new" "tier_log new p"
    "r = Inr (res(pn \<mapsto> \<lparr>plaque_text = plaque, image_path = (if truthy p then p else None),
             source_or_status = (if truthy p then url0
                else ''No image was downloaded even though some urls were found.''),
             location = loc, image_url = iurl\<rparr>))"
    by blast
  have nv: "new_visits s s' = new"
    using n(1) by (rule new_visits_eq)
  have "truthy p \<Longrightarrow> p \<noteq> None"
    by (cases p) (auto simp: truthy_def)
  with n(3) tier_log_success_iff[OF n(2)] nv show ?thesis
    by (intro exI[of _ "\<lparr>plaque_text = plaque, image_path = (if truthy p then p else None),
             source_or_status = (if truthy p then url0
                else ''No image was downloaded even though some urls were found.''),
             location = loc, image_url = iurl\<rparr>"]) auto
qed

lemmas legacy_defs = legacy_process_a_painting_def legacy_store_def

lemma mona_swapped_run:
  "process_a_painting mona_web ''Mona Lisa'' (UrlList [mona_other, mona_wiki]) mona_names
       Map.empty fresh_session =
     (Inr [''Mona Lisa'' \<mapsto>
        \<lparr>plaque_text = ''Mona Lisa, Leonardo da Vinci'',
         image_path = Some ''extracted_images/Mona Lisa.jpg'',
         source_or_status = mona_other,
         location = ''Unknown location'',
         image_url = ''https://upload.wikimedia.org/mona.jpg''\<rparr>],
      \<lparr>world = (), visits = [(mona_wiki, Some ''extracted_images/Mona Lisa.jpg'')]\<rparr>)"
  by (simp add: run_defs example_defs)

theorem source_page_url_is_first_candidate_witness:
  "process_a_painting mona_web ''Mona Lisa'' (UrlList [mona_other, mona_wiki]) mona_names
       Map.empty fresh_session =
     (Inr [''Mona Lisa'' \<mapsto>
        \<lparr>plaque_text = ''Mona Lisa, Leonardo da Vinci'',
         image_path = Some ''extracted_images/Mona Lisa.jpg'',
         source_or_status = mona_other,
         location = ''Unknown location'',
         image_url = ''https://upload.wikimedia.org/mona.jpg''\<rparr>],
      \<lparr>world = (), visits = [(mona_wiki, Some ''extracted_images/Mona Lisa.jpg'')]\<rparr>)
   \<and> mona_names ''Mona Lisa'' = Some ''Mona Lisa, Leonardo da Vinci''
   \<and> (\<exists>rec. [''Mona Lisa'' \<mapsto>
        \<lparr>plaque_text = ''Mona Lisa, Leonardo da Vinci'',
         image_path = Some ''extracted_images/Mona Lisa.jpg'',
         source_or_status = mona_other,
         location = ''Unknown location'',
         image_url = ''https://upload.wikimedia.org/mona.jpg''\<rparr>] = [''Mona Lisa'' \<mapsto> rec]
        \<and> image_path rec \<noteq> None \<and> source_or_status rec = mona_other)"
proof -
  have plaque: "mona_names ''Mona Lisa'' = Some ''Mona Lisa, Leonardo da Vinci''"
    by (simp add: mona_names_def)
  from source_page_url_is_first_candidate[OF mona_swapped_run plaque]
  obtain rec where r: "[''Mona Lisa'' \<mapsto>
        \<lparr>plaque_text = ''Mona Lisa, Leonardo da Vinci'',
         image_path = Some ''extracted_images/Mona Lisa.jpg'',
         source_or_status = mona_other,
         location = ''Unknown location'',
         image_url = ''https://upload.wikimedia.org/mona.jpg''\<rparr>] = [''Mona Lisa'' \<mapsto> rec]"
    "image_path rec \<noteq> None \<longrightarrow> source_or_status rec = mona_other"
    by auto
  from r(1) have "rec = \<lparr>plaque_text = ''Mona Lisa, Leonardo da Vinci'',
         image_path = Some ''extracted_images/Mona Lisa.jpg'',
         source_or_status = mona_other,
         location = ''Unknown location'',
         image_url = ''https://upload.wikimedia.org/mona.jpg''\<rparr>"
    by (metis map_upd_eqD1)
  with r have "image_path rec \<noteq> None \<and> source_or_status rec = mona_other"
    by simp
  with r(1) plaque mona_swapped_run show ?thesis
    by blast
qed

text \<open>
  The claim as stated fails on the legacy module: with the candidates
  \<^verbatim>\<open>[https://example.com/x, https://en.wikipedia.org/wiki/Mona_Lisa]\<close>, of which the second
  yields the image, the legacy record holds the second URL, not the first.
\<close>

theorem legacy_source_page_url_counterexample:
  "legacy_process_a_painting mona_web ''Mona Lisa'' [mona_other, mona_wiki] mona_names
       Map.empty fresh_session =
     (Inr [''Mona Lisa'' \<mapsto>
        \<lparr>l_plaque_text = ''Mona Lisa, Leonardo da Vinci'',
         l_image_path = Some ''extracted_images/Mona Lisa.jpg'',
         l_source_or_status = mona_wiki,
         l_location = ''Unknown location'',
         l_image_url = Some ''https://upload.wikimedia.org/mona.jpg''\<rparr>],
      \<lparr>world = (), visits = [(mona_wiki, Some ''extracted_images/Mona Lisa.jpg'')]\<rparr>)
   \<and> hd [mona_other, mona_wiki] \<noteq> mona_wiki"
  by (simp add: legacy_defs visit_def truthy_def example_defs)

lemma legacy_wikipedia_loop_hit:
  "legacy_wikipedia_loop ext pn urls bad s = (Some (p, u, url), bad', s') \<Longrightarrow>
     visits s' \<noteq> [] \<and> last (visits s') = (url, p) \<and> truthy p"
proof (induction urls arbitrary: bad s)
  case Nil
  then show ?case by simp
next
  case (Cons x xs)
  obtain q v s1 where v: "visit ext pn x s = ((q, v), s1)"
    by (metis prod.exhaust)
  show ?case
  proof (cases "str_in ''wikipedia'' x \<and> truthy q")
    case True
    with v Cons.prems have "p = q" "url = x" "s' = s1" by auto
    with True visit_visits[OF v] show ?thesis by simp
  next
    case False
    with v Cons.prems
    have "\<exists>bad0 s0. legacy_wikipedia_loop ext pn xs bad0 s0 = (Some (p, u, url), bad', s')"
      by (auto split: if_splits)
    with Cons.IH show ?thesis by blast
  qed
qed

lemma legacy_museum_domains_hit:
  "legacy_museum_domains ext pn x tbl loc bad s = (Some (p, u, url), loc', bad', s') \<Longrightarrow>
     visits s' \<noteq> [] \<and> last (visits s') = (url, p) \<and> truthy p"
proof (induction tbl arbitrary: loc bad s)
  case Nil
  then show ?case by simp
next
  case (Cons e tbl)
  obtain museum_domain museum_name where e: "e = (museum_domain, museum_name)"
    by (metis prod.exhaust)
  obtain q v s1 where v: "visit ext pn x s = ((q, v), s1)"
    by (metis prod.exhaust)
  show ?case
  proof (cases "str_in museum_domain x \<and> truthy q")
    case True
    with v e Cons.prems have "p = q" "url = x" "s' = s1" by auto
    with True visit_visits[OF v] show ?thesis by simp
  next
    case False
    with v e Cons.prems
    have "\<exists>loc0 bad0 s0.
        legacy_museum_domains ext pn x tbl loc0 bad0 s0 = (Some (p, u, url), loc', bad', s')"
      by (auto split: if_splits)
    with Cons.IH show ?thesis by blast
  qed
qed

lemma legacy_museum_loop_hit:
  "legacy_museum_loop ext pn urls loc bad s = (Some (p, u, url), loc', bad', s') \<Longrightarrow>
     visits s' \<noteq> [] \<and> last (visits s') = (url, p) \<and> truthy p"
proof (induction urls arbitrary: loc bad s)
  case Nil
  then show ?case by simp
next
  case (Cons x xs)
  obtain h loc1 bad1 s1
    where d: "legacy_museum_domains ext pn x KNOWN_MUSEUMS loc bad s = (h, loc1, bad1, s1)"
    by (metis prod.exhaust)
  show ?case
  proof (cases h)
    case None
    with d Cons.prems have "legacy_museum_loop ext pn xs loc1 bad1 s1 = (Some (p, u, url), loc', bad', s')"
      by simp
    from Cons.IH[OF this] show ?thesis .
  next
    case (Some hit)
    with d Cons.prems have "hit = (p, u, url)" "s' = s1" by auto
    with d Some legacy_museum_domains_hit[of ext pn x KNOWN_MUSEUMS loc bad s p u url loc1 bad1 s1]
    show ?thesis by simp
  qed
qed

lemma legacy_remaining_loop_hit:
  "legacy_remaining_loop ext pn urls bad s = (Some (p, u, url), s') \<Longrightarrow>
     visits s' \<noteq> [] \<and> last (visits s') = (url, p) \<and> truthy p"
proof (induction urls arbitrary: s)
  case Nil
  then show ?case by simp
next
  case (Cons x xs)
  obtain q v s1 where v: "visit ext pn x s = ((q, v), s1)"
    by (metis prod.exhaust)
  show ?case
  proof (cases "x \<notin> bad \<and> truthy q")
    case True
    with v Cons.prems have "p = q" "url = x" "s' = s1" by auto
    with True visit_visits[OF v] show ?thesis by simp
  next
    case False
    with v Cons.prems
    have "\<exists>s0. legacy_remaining_loop ext pn xs bad s0 = (Some (p, u, url), s')"
      by (auto split: if_splits)
    with Cons.IH show ?thesis by blast
  qed
qed

text \<open>
  The legacy module: a record with an image path holds, as its source page URL, the URL of
  the last navigation, which is the one that yielded the image.
\<close>

lemma legacy_source_page_url_is_last_visited:
  fixes ext :: "'w extractor"
  assumes run: "legacy_process_a_painting ext pn urls names res s = (Inr res', s')"
    and rec: "res' pn = Some rec" and path: "l_image_path rec \<noteq> None"
  shows "visits s' \<noteq> [] \<and> l_source_or_status rec = fst (last (visits s'))
     \<and> l_image_path rec = snd (last (visits s')) \<and> truthy (snd (last (visits s')))"
proof -
  from run rec path have ne: "urls \<noteq> []"
    by (auto simp: legacy_process_a_painting_def legacy_store_def split: option.splits)
  obtain h1 bad1 s1 where w: "legacy_wikipedia_loop ext pn urls {} s = (h1, bad1, s1)"
    by (metis prod.exhaust)
  obtain h2 loc2 bad2 s2
    where m: "legacy_museum_loop ext pn urls (detect_museum_from_urls urls) bad1 s1 =
      (h2, loc2, bad2, s2)"
    by (metis prod.exhaust)
  obtain h3 s3 where t: "legacy_remaining_loop ext pn urls bad2 s2 = (h3, s3)"
    by (metis prod.exhaust)
  consider (a) p u url where "h1 = Some (p, u, url)"
    | (b) p u url where "h1 = None" "h2 = Some (p, u, url)"
    | (c) p u url where "h1 = None" "h2 = None" "h3 = Some (p, u, url)"
    | (d) "h1 = None" "h2 = None" "h3 = None"
    by (metis option.exhaust prod.exhaust)
  then show ?thesis
  proof cases
    case a
    with ne w run rec have "s' = s1" "l_source_or_status rec = url" "l_image_path rec = p"
      by (auto simp: legacy_process_a_painting_def legacy_store_def Let_def split: option.splits)
    with legacy_wikipedia_loop_hit[of ext pn urls "{}" s p u url bad1 s1] w a show ?thesis
      by simp
  next
    case b
    with ne w m run rec have "s' = s2" "l_source_or_status rec = url" "l_image_path rec = p"
      by (auto simp: legacy_process_a_painting_def legacy_store_def Let_def split: option.splits)
    with legacy_museum_loop_hit[of ext pn urls _ bad1 s1 p u url loc2 bad2 s2] m b show ?thesis
      by simp
  next
    case c
    with ne w m t run rec have "s' = s3" "l_source_or_status rec = url" "l_image_path rec = p"
      by (auto simp: legacy_process_a_painting_def legacy_store_def Let_def split: option.splits)
    with legacy_remaining_loop_hit[of ext pn urls bad2 s2 p u url s3] t c show ?thesis
      by simp
  next
    case d
    with ne w m t run rec path show ?thesis
      by (auto simp: legacy_process_a_painting_def legacy_store_def Let_def split: option.splits)
  qed
qed

subsection \<open>C7: the location label\<close>

text \<open>
  Claim C7, as amended. For a painting with a non-empty list of candidate URLs, the location
  of the record is the museum name of the first URL of the list that matches the keyword
  table (\<^verbatim>\<open>Unknown location\<close> if none matches), except when the museum tier supplies the
  image: then it is the museum name of the first keyword of the table that occurs in the URL
  that supplied the image, which is the URL visited last.
\<close>

theorem location_label:
  fixes ext :: "'w extractor"
  assumes run: "process_a_painting ext pn (UrlList (url0 # rest)) names res s = (r, s')"
    and plaque: "names pn = Some plaque"
    and w: "try_wikipedia_urls ext pn (url0 # rest) s = ((p1, u1, bad1), s1)"
    and m: "try_museum_urls ext pn (url0 # rest) bad1 s1 = ((p2, u2, loc2, bad2), s2)"
  shows "\<exists>rec. r = Inr (res(pn \<mapsto> rec))
     \<and> location rec =
         (if \<not> truthy p1 \<and> truthy p2
          then the (first_museum KNOWN_MUSEUMS (fst (last (visits s'))))
          else first_matching_url_location (url0 # rest))
     \<and> (if \<not> truthy p1 \<and> truthy p2
         then image_path rec = snd (last (visits s')) \<and> truthy (snd (last (visits s')))
         else True)"
proof -
  obtain p3 u3 s3 where t: "try_remaining_urls ext pn (url0 # rest) bad2 s2 = ((p3, u3), s3)"
    by (metis prod.exhaust)
  from process_a_painting_run[OF run plaque w m t]
  obtain new p loc iurl where n: "visits s' = visits s @ new" "tier_log new p"
    "r = Inr (res(pn \<mapsto> \<lparr>plaque_text = plaque, image_path = (if truthy p then p else None),
             source_or_status = (if truthy p then url0
                else ''No image was downloaded even though some urls were found.''),
             location = loc, image_url = iurl\<rparr>))"
    "loc = (if \<not> truthy p1 \<and> truthy p2 then the (first_museum KNOWN_MUSEUMS (fst (last new)))
               else detect_museum_from_urls (url0 # rest))"
    "p = (if truthy p1 then p1 else if truthy p2 then p2 else p3)"
    by blast
  have l: "\<not> truthy p1 \<and> truthy p2 \<Longrightarrow> last (visits s') = last new \<and> snd (last new) = p \<and> truthy p"
    using n(1,2,5) by (auto simp: tier_log_def)
  show ?thesis
    using n(3,4) l
    by (intro exI[of _ "\<lparr>plaque_text = plaque, image_path = (if truthy p then p else None),
             source_or_status = (if truthy p then url0
                else ''No image was downloaded even though some urls were found.''),
             location = loc, image_url = iurl\<rparr>"])
       (auto simp: detect_museum_from_urls_spec)
qed

lemma met_moma_run:
  "process_a_painting moma_web ''Mona Lisa'' (UrlList [met_url, moma_url]) mona_names
       Map.empty fresh_session =
     (Inr [''Mona Lisa'' \<mapsto>
        \<lparr>plaque_text = ''Mona Lisa, Leonardo da Vinci'',
         image_path = Some ''extracted_images/Mona Lisa.jpg'',
         source_or_status = met_url,
         location = ''Museum of Modern Art (MoMA)'',
         image_url = ''https://www.moma.org/media/2.jpg''\<rparr>],
      \<lparr>world = (), visits = [(met_url, None), (moma_url, Some ''extracted_images/Mona Lisa.jpg'')]\<rparr>)"
  by (simp add: run_defs example_defs)

lemma met_moma_wiki_tier:
  "try_wikipedia_urls moma_web ''Mona Lisa'' [met_url, moma_url] fresh_session =
     ((None, None, {}), fresh_session)"
  by (simp add: run_defs example_defs)

lemma met_moma_museum_tier:
  "try_museum_urls moma_web ''Mona Lisa'' [met_url, moma_url] {} fresh_session =
     ((Some ''extracted_images/Mona Lisa.jpg'', Some ''https://www.moma.org/media/2.jpg'',
       ''Museum of Modern Art (MoMA)'', {met_url}),
      \<lparr>world = (), visits = [(met_url, None), (moma_url, Some ''extracted_images/Mona Lisa.jpg'')]\<rparr>)"
  by (simp add: run_defs example_defs)

theorem location_label_witness:
  "process_a_painting moma_web ''Mona Lisa'' (UrlList [met_url, moma_url]) mona_names
       Map.empty fresh_session =
     (Inr [''Mona Lisa'' \<mapsto>
        \<lparr>plaque_text = ''Mona Lisa, Leonardo da Vinci'',
         image_path = Some ''extracted_images/Mona Lisa.jpg'',
         source_or_status = met_url,
         location = ''Museum of Modern Art (MoMA)'',
         image_url = ''https://www.moma.org/media/2.jpg''\<rparr>],
      \<lparr>world = (), visits = [(met_url, None), (moma_url, Some ''extracted_images/Mona Lisa.jpg'')]\<rparr>)
   \<and> mona_names ''Mona Lisa'' = Some ''Mona Lisa, Leonardo da Vinci''
   \<and> \<not> truthy (None :: string option)
   \<and> truthy (Some ''extracted_images/Mona Lisa.jpg'')
   \<and> (\<exists>rec. [''Mona Lisa'' \<mapsto>
        \<lparr>plaque_text = ''Mona Lisa, Leonardo da Vinci'',
         image_path = Some ''extracted_images/Mona Lisa.jpg'',
         source_or_status = met_url,
         location = ''Museum of Modern Art (MoMA)'',
         image_url = ''https://www.moma.org/media/2.jpg''\<rparr>] = [''Mona Lisa'' \<mapsto> rec]
       \<and> location rec = the (first_museum KNOWN_MUSEUMS moma_url))"
proof -
  have plaque: "mona_names ''Mona Lisa'' = Some ''Mona Lisa, Leonardo da Vinci''"
    by (simp add: mona_names_def)
  have tr: "\<not> truthy (None :: string option)" "truthy (Some ''extracted_images/Mona Lisa.jpg'')"
    by (simp_all add: truthy_def)
  from location_label[OF met_moma_run plaque met_moma_wiki_tier met_moma_museum_tier] tr
  have "\<exists>rec. [''Mona Lisa'' \<mapsto>
        \<lparr>plaque_text = ''Mona Lisa, Leonardo da Vinci'',
         image_path = Some ''extracted_images/Mona Lisa.jpg'',
         source_or_status = met_url,
         location = ''Museum of Modern Art (MoMA)'',
         image_url = ''https://www.moma.org/media/2.jpg''\<rparr>] = [''Mona Lisa'' \<mapsto> rec]
       \<and> location rec = the (first_museum KNOWN_MUSEUMS moma_url)"
    by simp blast
  with plaque tr met_moma_run show ?thesis
    by blast
qed

text \<open>
  The claim as stated fails: of the candidates \<^verbatim>\<open>[metmuseum URL, moma URL]\<close> the first
  yields nothing and the second yields the image in the museum tier; the record's location
  is that of the second URL, and the first URL that matches the table is the first one.
\<close>

theorem location_label_counterexample:
  "process_a_painting moma_web ''Mona Lisa'' (UrlList [met_url, moma_url]) mona_names
       Map.empty fresh_session =
     (Inr [''Mona Lisa'' \<mapsto>
        \<lparr>plaque_text = ''Mona Lisa, Leonardo da Vinci'',
         image_path = Some ''extracted_images/Mona Lisa.jpg'',
         source_or_status = met_url,
         location = ''Museum of Modern Art (MoMA)'',
         image_url = ''https://www.moma.org/media/2.jpg''\<rparr>],
      \<lparr>world = (), visits = [(met_url, None), (moma_url, Some ''extracted_images/Mona Lisa.jpg'')]\<rparr>)
   \<and> first_matching_url_location [met_url, moma_url] = ''The Metropolitan Museum of Art''
   \<and> ''Museum of Modern Art (MoMA)'' \<noteq> ''The Metropolitan Museum of Art''"
  by (simp add: run_defs first_matching_url_location_def example_defs)

subsection \<open>C3: the set of invalid URLs\<close>

text \<open>
  In the packaged module the set only grows from tier to tier, no URL of the set a tier
  receives is navigated to by that tier, and the set a failed tier hands on holds exactly
  the URLs it received and the URLs it attempted.
\<close>

lemma invalid_urls_never_retried:
  fixes ext :: "'w extractor"
  assumes w: "try_wikipedia_urls ext pn urls s = ((p1, u1, bad1), s1)"
    and m: "try_museum_urls ext pn urls bad1 s1 = ((p2, u2, loc2, bad2), s2)"
    and t: "try_remaining_urls ext pn urls bad2 s2 = ((p3, u3), s3)"
  shows "bad1 \<subseteq> bad2"
    and "fst ` set (new_visits s1 s2) \<inter> bad1 = {}"
    and "fst ` set (new_visits s2 s3) \<inter> bad2 = {}"
    and "\<not> truthy p1 \<Longrightarrow> bad1 = fst ` set (new_visits s s1)"
    and "\<not> truthy p2 \<Longrightarrow> bad2 = bad1 \<union> fst ` set (new_visits s1 s2)"
proof -
  from try_museum_urls_log[OF m] obtain new2 where n2: "visits s2 = visits s1 @ new2"
    "bad1 \<subseteq> bad2" "fst ` set new2 \<inter> bad1 = {}"
    by blast
  from try_remaining_urls_log[OF t] obtain new3 where n3: "visits s3 = visits s2 @ new3"
    "fst ` set new3 \<inter> bad2 = {}"
    by blast
  show "bad1 \<subseteq> bad2" by (rule n2(2))
  show "fst ` set (new_visits s1 s2) \<inter> bad1 = {}"
    using n2(1,3) by (simp add: new_visits_eq)
  show "fst ` set (new_visits s2 s3) \<inter> bad2 = {}"
    using n3 by (simp add: new_visits_eq)
  show "\<not> truthy p1 \<Longrightarrow> bad1 = fst ` set (new_visits s s1)"
    using wikipedia_loop_invalid[of ext pn urls "{}" s p1 u1 bad1 s1] w
    by (simp add: try_wikipedia_urls_def)
  show "\<not> truthy p2 \<Longrightarrow> bad2 = bad1 \<union> fst ` set (new_visits s1 s2)"
    using try_museum_urls_invalid[OF m] by simp
qed

text \<open>
  Claim C3 on the legacy module: a URL added to the invalid set by an earlier tier is
  never attempted again by a later tier. The second loop of the legacy
  \<^verbatim>\<open>process_a_painting\<close> does not test the set. For the one candidate
  \<^verbatim>\<open>https://en.wikipedia.org/wiki/The_Persistence_of_Memory\<close>, whose page yields nothing,
  the first loop adds the URL to the set, and the second loop, which finds the keyword
  \<^verbatim>\<open>si\<close> in it, navigates to it again: two navigations, where the packaged module makes
  one.
\<close>

theorem legacy_retries_invalid_url:
  "legacy_wikipedia_loop always_blocked ''The Persistence of Memory'' [persistence_url] {}
       fresh_session =
     (None, {persistence_url}, \<lparr>world = (), visits = [(persistence_url, None)]\<rparr>)
   \<and> legacy_museum_loop always_blocked ''The Persistence of Memory'' [persistence_url]
       ''Smithsonian Museums'' {persistence_url}
       \<lparr>world = (), visits = [(persistence_url, None)]\<rparr> =
     (None, ''Smithsonian Museums'', {persistence_url},
      \<lparr>world = (), visits = [(persistence_url, None), (persistence_url, None)]\<rparr>)
   \<and> snd (legacy_process_a_painting always_blocked ''The Persistence of Memory''
          [persistence_url] Map.empty Map.empty fresh_session) =
     \<lparr>world = (), visits = [(persistence_url, None), (persistence_url, None)]\<rparr>
   \<and> snd (process_a_painting always_blocked ''The Persistence of Memory''
          (UrlList [persistence_url]) Map.empty Map.empty fresh_session) =
     \<lparr>world = (), visits = [(persistence_url, None)]\<rparr>"
  by (simp add: legacy_defs run_defs always_blocked_def example_defs)

lemmas resolver_defs = try_srcset_tokens_def heapify_def heappop_def heap_first_def
  try_download_def download_image_from_url_def descriptor_ok_def descriptor_value_def
  py_int_def py_isdigit_def py_isdecimal_def int_max_str_digits_def digit_value_def
  truthy_def absent_def

subsection \<open>C10: descriptors and their weights\<close>









subsection \<open>C6: the result of a download\<close>




subsection \<open>The loops of the resolver and the download log\<close>

lemma try_download_requests:
  "try_download dl url base_url st = (r, st') \<Longrightarrow>
     requests st' = requests st @ [(url, case r of Inl e \<Rightarrow> False | Inr d \<Rightarrow> truthy (fst d))]"
  by (auto simp: try_download_def split: prod.splits)

lemma first_success_log_Nil: "first_success_log [] [] (Inr None)"
  by (simp add: first_success_log_def)

lemma first_success_log_hit:
  "truthy (fst d) \<Longrightarrow> first_success_log (c # cs) [(c, True)] (Inr (Some d))"
  by (simp add: first_success_log_def)

lemma first_success_log_raise: "first_success_log (c # cs) [(c, False)] (Inl e)"
  by (simp add: first_success_log_def)

lemma first_success_log_miss:
  "first_success_log cs tried r \<Longrightarrow> first_success_log (c # cs) ((c, False) # tried) r"
  by (cases tried) (auto simp: first_success_log_def split: sum.splits option.splits)

lemma fallback_loop_log:
  "fallback_loop dl toks base_url st = (r, st') \<Longrightarrow>
     \<exists>tried. requests st' = requests st @ tried
       \<and> first_success_log (filter (str_in ''/'') toks) tried r"
proof (induction toks arbitrary: st)
  case Nil
  then show ?case by (auto simp: first_success_log_Nil)
next
  case (Cons url urls)
  show ?case
  proof (cases "str_in ''/'' url")
    case False
    with Cons show ?thesis by simp
  next
    case True
    obtain d st1 where t: "try_download dl url base_url st = (d, st1)"
      by (metis prod.exhaust)
    show ?thesis
    proof (cases d)
      case (Inl e)
      with True t Cons.prems have "r = Inl e" "st' = st1" by auto
      with True t Inl show ?thesis
        by (intro exI[of _ "[(url, False)]"])
          (auto simp: first_success_log_raise dest: try_download_requests)
    next
      case (Inr img)
      obtain img_bytes img_url img_extension where i: "img = (img_bytes, img_url, img_extension)"
        by (metis prod.exhaust)
      show ?thesis
      proof (cases "truthy img_bytes")
        case tr: True
        with True t Inr i Cons.prems have "r = Inr (Some img)" "st' = st1" by auto
        with True t Inr i tr show ?thesis
          by (intro exI[of _ "[(url, True)]"])
            (auto simp: first_success_log_hit dest: try_download_requests)
      next
        case fl: False
        with True t Inr i Cons.prems have "fallback_loop dl urls base_url st1 = (r, st')"
          by auto
        from Cons.IH[OF this] obtain tried where "requests st' = requests st1 @ tried"
          "first_success_log (filter (str_in ''/'') urls) tried r"
          by blast
        with True t Inr i fl show ?thesis
          by (intro exI[of _ "(url, False) # tried"])
            (auto simp: first_success_log_miss dest: try_download_requests)
      qed
    qed
  qed
qed

lemma heap_first_Min:
  fixes heap :: "('a::linorder) list"
  assumes "heap \<noteq> []"
  shows "heap_first (\<lambda>item. item) heap = Min (set heap)"
proof -
  have eq: "(\<lambda>x m. if x < m then x else m) = (min :: 'a \<Rightarrow> 'a \<Rightarrow> 'a)"
    by (auto simp: fun_eq_iff min_def)
  from assms obtain a xs where h: "heap = a # xs"
    by (cases heap) auto
  show ?thesis
    unfolding heap_first_def eq h using Min.set_eq_fold[of a xs] by simp
qed

lemma sort_heappop:
  fixes heap :: "('a::linorder) list"
  assumes ne: "heap \<noteq> []" and pop: "heappop (\<lambda>item. item) heap = (m, heap')"
  shows "sort heap = m # sort heap'"
proof -
  from pop have m: "m = Min (set heap)" and h': "heap' = remove1 m heap"
    using heap_first_Min[OF ne] by (auto simp: heappop_def Let_def)
  from ne m have mem: "m \<in> set heap"
    by simp
  have le: "\<forall>x \<in> set heap. m \<le> x"
    using m by simp
  have "mset (m # sort heap') = mset heap"
    using mem h' by simp
  moreover have "sorted (m # sort heap')"
    using le h' set_remove1_subset[of m heap] by auto
  ultimately show ?thesis
    by (metis properties_for_sort)
qed

lemma heap_loop_log:
  "heap_loop dl heap base_url st = (r, st') \<Longrightarrow>
     \<exists>tried. requests st' = requests st @ tried
       \<and> first_success_log (map snd (sort heap)) tried r"
proof (induction dl heap base_url st rule: heap_loop.induct)
  case (1 dl max_heap base_url st)
  show ?case
  proof (cases "max_heap = []")
    case True
    with "1.prems" show ?thesis
      by (auto simp: first_success_log_Nil)
  next
    case ne: False
    obtain neg_value url max_heap' where p: "heappop (\<lambda>item. item) max_heap = ((neg_value, url), max_heap')"
      by (metis prod.exhaust)
    from sort_heappop[OF ne p] have s: "map snd (sort max_heap) = url # map snd (sort max_heap')"
      by simp
    obtain d st1 where t: "try_download dl url base_url st = (d, st1)"
      by (metis prod.exhaust)
    show ?thesis
    proof (cases d)
      case (Inl e)
      with ne p t "1.prems" have "r = Inl e" "st' = st1"
        by (auto simp: heap_loop.simps[of dl max_heap])
      with t Inl show ?thesis
        unfolding s
        by (intro exI[of _ "[(url, False)]"])
          (auto simp: first_success_log_raise dest: try_download_requests)
    next
      case (Inr img)
      obtain img_bytes img_url img_extension where i: "img = (img_bytes, img_url, img_extension)"
        by (metis prod.exhaust)
      show ?thesis
      proof (cases "truthy img_bytes")
        case tr: True
        with ne p t Inr i "1.prems" have "r = Inr (Some img)" "st' = st1"
          by (auto simp: heap_loop.simps[of dl max_heap])
        with t Inr i tr show ?thesis
          unfolding s
          by (intro exI[of _ "[(url, True)]"])
            (auto simp: first_success_log_hit dest: try_download_requests)
      next
        case fl: False
        with ne p t Inr i "1.prems" have run: "heap_loop dl max_heap' base_url st1 = (r, st')"
          by (auto simp: heap_loop.simps[of dl max_heap])
        have "\<exists>tried. requests st' = requests st1 @ tried
            \<and> first_success_log (map snd (sort max_heap')) tried r"
          using "1.IH"[OF ne p[symmetric] refl t[symmetric] Inr i[symmetric] refl fl run] .
        then obtain tried where "requests st' = requests st1 @ tried"
          "first_success_log (map snd (sort max_heap')) tried r"
          by blast
        with t Inr i fl show ?thesis
          unfolding s
          by (intro exI[of _ "(url, False) # tried"])
            (auto simp: first_success_log_miss dest: try_download_requests)
      qed
    qed
  qed
qed

subsection \<open>Pairs, tokens and the weighted order\<close>

lemmas token_defs = srcset_tokens_of_def py_split_def py_strip_def py_isspace_def
  rstrip_comma_def

lemma parse_pairs_length:
  "parse_pairs tokens = Inr srcset_pairs \<Longrightarrow> length srcset_pairs * 2 \<le> length tokens"
proof (induction tokens arbitrary: srcset_pairs rule: parse_pairs.induct)
  case (1 url descriptor rest)
  show ?case
  proof (cases "descriptor_ok descriptor")
    case (Inl e)
    with "1.prems" show ?thesis by simp
  next
    case (Inr ok)
    show ?thesis
    proof (cases ok)
      case True
      with Inr "1.prems" obtain v ps where v: "descriptor_value descriptor = Inr v"
        and ps: "parse_pairs rest = Inr ps" and sp: "srcset_pairs = (url, v) # ps"
        by (auto split: sum.splits)
      from "1.IH"(1)[OF Inr _ v ps] True sp show ?thesis by simp
    next
      case False
      with Inr "1.prems" have "parse_pairs (descriptor # rest) = Inr srcset_pairs" by simp
      from "1.IH"(2)[OF Inr _ this] False show ?thesis by simp
    qed
  qed
qed simp_all

lemma descending_weight_order_urls:
  "map fst (descending_weight_order ps) = map snd (sort (map (\<lambda>(url, v). (- v, url)) ps))"
  by (simp add: descending_weight_order_def case_prod_unfold comp_def)

lemma descending_weight_order_mset:
  "mset (descending_weight_order ps) = mset ps"
proof -
  have "mset (descending_weight_order ps) =
      image_mset (\<lambda>(neg_value, url). (url, - neg_value))
        (image_mset (\<lambda>(url, v). (- v, url)) (mset ps))"
    by (simp add: descending_weight_order_def)
  also have "\<dots> = image_mset (\<lambda>p. p) (mset ps)"
    unfolding image_mset.compositionality by (rule image_mset_cong) auto
  finally show ?thesis by simp
qed

lemma descending_weight_order_sorted:
  "sorted_wrt (\<lambda>a b. a \<ge> b) (map snd (descending_weight_order ps))"
proof -
  let ?s = "sort (map (\<lambda>(url, v). (- v, url)) ps)"
  have "sorted_wrt (\<lambda>x y. fst x \<le> fst y) ?s"
    by (rule sorted_wrt_mono_rel[OF _ sorted_sort]) (auto simp: less_eq_prod_def)
  then have "sorted_wrt (\<lambda>a b. - fst a \<ge> - fst b) ?s"
    by simp
  then show ?thesis
    by (simp add: descending_weight_order_def sorted_wrt_map case_prod_unfold)
qed

lemma sorted_wrt_ge_distinct:
  fixes xs :: "int list"
  shows "sorted_wrt (\<lambda>a b. a \<ge> b) xs \<Longrightarrow> distinct xs \<Longrightarrow> sorted_wrt (\<lambda>a b. a > b) xs"
  by (induction xs) (auto simp: less_le)

lemma descending_weight_order_strict:
  assumes "distinct (map snd ps)"
  shows "sorted_wrt (\<lambda>a b. a > b) (map snd (descending_weight_order ps))"
proof -
  have "distinct (map snd (descending_weight_order ps))"
    using assms descending_weight_order_mset[of ps]
    by (metis mset_map mset_eq_imp_distinct_iff)
  with descending_weight_order_sorted[of ps] show ?thesis
    by (rule sorted_wrt_ge_distinct)
qed

lemma try_srcset_tokens_log:
  assumes pairs: "parse_pairs tokens = Inr srcset_pairs"
    and run: "try_srcset_tokens dl tokens base_url st = (r, st')"
  shows "\<exists>tried. requests st' = requests st @ tried
     \<and> first_success_log
          (if length srcset_pairs * 2 < length tokens then filter (str_in ''/'') (rev tokens)
           else map fst (descending_weight_order srcset_pairs)) tried r"
proof (cases "length srcset_pairs * 2 < length tokens")
  case True
  with pairs run have "fallback_loop dl (rev tokens) base_url st = (r, st')"
    by (simp add: try_srcset_tokens_def)
  from fallback_loop_log[OF this] True show ?thesis by simp
next
  case False
  with pairs run
  have "heap_loop dl (map (\<lambda>(url, v). (- v, url)) srcset_pairs) base_url st = (r, st')"
    by (simp add: try_srcset_tokens_def heapify_def)
  from heap_loop_log[OF this] False show ?thesis
    by (simp add: descending_weight_order_urls)
qed

subsection \<open>C8: when the resolver falls back to the raw tokens\<close>

text \<open>
  Claim C8, as amended. For a token list that the pairing loop reads without an exception,
  the resolver gives up the weighted order and walks the raw token list in reverse,
  attempting each token that contains \<^verbatim>\<open>/\<close> until a download succeeds, exactly when the
  number of pairs is less than half the number of tokens. A pair takes two tokens, so this
  is the case as soon as one token is left out of the pairs, also when more than half of
  the tokens are paired. Otherwise it attempts the URLs of the pairs by descending weight.
\<close>

theorem fallback_exactly_when_a_token_is_unpaired:
  assumes pairs: "parse_pairs tokens = Inr srcset_pairs"
    and run: "try_srcset_tokens dl tokens base_url st = (r, st')"
  shows "length srcset_pairs * 2 \<le> length tokens
    \<and> (length srcset_pairs * 2 < length tokens) = (length srcset_pairs * 2 \<noteq> length tokens)
    \<and> (if length srcset_pairs * 2 < length tokens
        then try_srcset_tokens dl tokens base_url st = fallback_loop dl (rev tokens) base_url st
          \<and> (\<exists>tried. requests st' = requests st @ tried
                \<and> first_success_log (filter (str_in ''/'') (rev tokens)) tried r)
        else try_srcset_tokens dl tokens base_url st =
            heap_loop dl (heapify (map (\<lambda>(url, v). (- v, url)) srcset_pairs)) base_url st
          \<and> (\<exists>tried. requests st' = requests st @ tried
                \<and> first_success_log (map fst (descending_weight_order srcset_pairs)) tried r))"
proof -
  note len = parse_pairs_length[OF pairs]
  from try_srcset_tokens_log[OF pairs run] obtain tried
    where t: "requests st' = requests st @ tried"
      "first_success_log
          (if length srcset_pairs * 2 < length tokens then filter (str_in ''/'') (rev tokens)
           else map fst (descending_weight_order srcset_pairs)) tried r"
    by blast
  show ?thesis
  proof (cases "length srcset_pairs * 2 < length tokens")
    case True
    with len t pairs show ?thesis
      by (auto simp: try_srcset_tokens_def)
  next
    case False
    with len t pairs show ?thesis
      by (auto simp: try_srcset_tokens_def)
  qed
qed

lemma hi_lo_tokens:
  "srcset_tokens_of ''/img/hi.jpg 2x, /img/lo.jpg'' = [''/img/hi.jpg'', ''2x'', ''/img/lo.jpg'']"
  by (simp add: token_defs)

lemma hi_lo_pairs:
  "parse_pairs [''/img/hi.jpg'', ''2x'', ''/img/lo.jpg''] = Inr [(''/img/hi.jpg'', 2)]"
  by (simp add: resolver_defs)

lemma hi_lo_run:
  "try_srcset_tokens (download_image_from_url offline) [''/img/hi.jpg'', ''2x'', ''/img/lo.jpg''] ''https://x.org'' idle =
     (Inr None, \<lparr>net_world = (), requests = [(''/img/lo.jpg'', False), (''/img/hi.jpg'', False)],
                files = Map.empty\<rparr>)"
  by (simp add: resolver_defs offline_def idle_def)

theorem fallback_exactly_when_a_token_is_unpaired_witness:
  "parse_pairs [''/img/hi.jpg'', ''2x'', ''/img/lo.jpg''] = Inr [(''/img/hi.jpg'', 2)]
   \<and> try_srcset_tokens (download_image_from_url offline) [''/img/hi.jpg'', ''2x'', ''/img/lo.jpg''] ''https://x.org'' idle =
     (Inr None, \<lparr>net_world = (), requests = [(''/img/lo.jpg'', False), (''/img/hi.jpg'', False)],
                files = Map.empty\<rparr>)
   \<and> length [(''/img/hi.jpg'', 2 :: int)] * 2 < length [''/img/hi.jpg'', ''2x'', ''/img/lo.jpg'']
   \<and> try_srcset_tokens (download_image_from_url offline) [''/img/hi.jpg'', ''2x'', ''/img/lo.jpg''] ''https://x.org'' idle =
       fallback_loop (download_image_from_url offline) (rev [''/img/hi.jpg'', ''2x'', ''/img/lo.jpg'']) ''https://x.org'' idle"
proof -
  have lt: "length [(''/img/hi.jpg'', 2 :: int)] * 2 < length [''/img/hi.jpg'', ''2x'', ''/img/lo.jpg'']"
    by simp
  from fallback_exactly_when_a_token_is_unpaired[OF hi_lo_pairs hi_lo_run] lt
  have "try_srcset_tokens (download_image_from_url offline) [''/img/hi.jpg'', ''2x'', ''/img/lo.jpg''] ''https://x.org'' idle =
       fallback_loop (download_image_from_url offline) (rev [''/img/hi.jpg'', ''2x'', ''/img/lo.jpg'']) ''https://x.org'' idle"
    by (simp only: if_True)
  with hi_lo_pairs hi_lo_run lt show ?thesis
    by (intro conjI)
qed

text \<open>
  The claim as stated fails. Of the three tokens of \<^verbatim>\<open>/img/hi.jpg 2x, /img/lo.jpg\<close> two are
  paired, which is not fewer than half of them; and the resolver walks the tokens in
  reverse: it attempts \<^verbatim>\<open>/img/lo.jpg\<close> first.
\<close>

theorem fallback_counterexample:
  "srcset_tokens_of ''/img/hi.jpg 2x, /img/lo.jpg'' = [''/img/hi.jpg'', ''2x'', ''/img/lo.jpg'']
   \<and> parse_pairs [''/img/hi.jpg'', ''2x'', ''/img/lo.jpg''] = Inr [(''/img/hi.jpg'', 2)]
   \<and> \<not> 2 * (2 * length [(''/img/hi.jpg'', 2 :: int)])
        < length [''/img/hi.jpg'', ''2x'', ''/img/lo.jpg'']
   \<and> try_srcset_tokens (download_image_from_url offline) [''/img/hi.jpg'', ''2x'', ''/img/lo.jpg''] ''https://x.org'' idle =
       fallback_loop (download_image_from_url offline) (rev [''/img/hi.jpg'', ''2x'', ''/img/lo.jpg'']) ''https://x.org'' idle
   \<and> requests (snd (try_srcset_tokens (download_image_from_url offline) [''/img/hi.jpg'', ''2x'', ''/img/lo.jpg'']
        ''https://x.org'' idle)) = [(''/img/lo.jpg'', False), (''/img/hi.jpg'', False)]"
  by (simp add: hi_lo_tokens resolver_defs offline_def idle_def)

subsection \<open>C4: the order of the weighted attempts\<close>

text \<open>
  Claim C4, as amended. For a srcset whose tokens all parse into (URL, weight) pairs (each
  pair takes two tokens, so the pairs are half as many as the tokens), the resolver
  attempts the downloads in the order of the pairs by descending weight, which is a
  rearrangement of the pairs whose weights never increase, and strictly decrease when the
  weights are distinct; pairs of equal weight are attempted by ascending URL. It stops at
  the first download that returns non-empty bytes. In particular for
  \<^verbatim>\<open>a.jpg 100w, b.jpg 800w, c.jpg 400w\<close> it attempts \<^verbatim>\<open>b.jpg\<close>, then \<^verbatim>\<open>c.jpg\<close>, then \<^verbatim>\<open>a.jpg\<close>.
\<close>

theorem srcset_attempts_by_descending_weight:
  assumes pairs: "parse_pairs tokens = Inr srcset_pairs"
    and paired: "length srcset_pairs * 2 = length tokens"
    and run: "try_srcset_tokens dl tokens base_url st = (r, st')"
  shows "(\<exists>tried. requests st' = requests st @ tried
          \<and> first_success_log (map fst (descending_weight_order srcset_pairs)) tried r)
    \<and> mset (descending_weight_order srcset_pairs) = mset srcset_pairs
    \<and> sorted_wrt (\<lambda>a b. a \<ge> b) (map snd (descending_weight_order srcset_pairs))
    \<and> (distinct (map snd srcset_pairs) \<longrightarrow>
          sorted_wrt (\<lambda>a b. a > b) (map snd (descending_weight_order srcset_pairs)))
    \<and> requests (snd (try_srcset_tokens (download_image_from_url offline)
          (srcset_tokens_of ''a.jpg 100w, b.jpg 800w, c.jpg 400w'') ''https://x.org/'' idle)) =
        [(''b.jpg'', False), (''c.jpg'', False), (''a.jpg'', False)]"
proof -
  from try_srcset_tokens_log[OF pairs run] paired
  have "\<exists>tried. requests st' = requests st @ tried
          \<and> first_success_log (map fst (descending_weight_order srcset_pairs)) tried r"
    by simp
  moreover have "requests (snd (try_srcset_tokens (download_image_from_url offline)
          (srcset_tokens_of ''a.jpg 100w, b.jpg 800w, c.jpg 400w'') ''https://x.org/'' idle)) =
        [(''b.jpg'', False), (''c.jpg'', False), (''a.jpg'', False)]"
    by (simp add: token_defs resolver_defs offline_def idle_def)
  ultimately show ?thesis
    using descending_weight_order_mset[of srcset_pairs]
      descending_weight_order_sorted[of srcset_pairs]
      descending_weight_order_strict[of srcset_pairs]
    by blast
qed

lemma abc_pairs:
  "parse_pairs [''a.jpg'', ''100w'', ''b.jpg'', ''800w'', ''c.jpg'', ''400w''] =
     Inr [(''a.jpg'', 100), (''b.jpg'', 800), (''c.jpg'', 400)]"
  by (simp add: resolver_defs)

lemma abc_run:
  "try_srcset_tokens (download_image_from_url offline) [''a.jpg'', ''100w'', ''b.jpg'', ''800w'', ''c.jpg'', ''400w'']
       ''https://x.org/'' idle =
     (Inr None, \<lparr>net_world = (),
        requests = [(''b.jpg'', False), (''c.jpg'', False), (''a.jpg'', False)],
        files = Map.empty\<rparr>)"
  by (simp add: resolver_defs offline_def idle_def)

theorem srcset_attempts_by_descending_weight_witness:
  "parse_pairs [''a.jpg'', ''100w'', ''b.jpg'', ''800w'', ''c.jpg'', ''400w''] =
     Inr [(''a.jpg'', 100), (''b.jpg'', 800), (''c.jpg'', 400)]
   \<and> length [(''a.jpg'', 100 :: int), (''b.jpg'', 800), (''c.jpg'', 400)] * 2 =
       length [''a.jpg'', ''100w'', ''b.jpg'', ''800w'', ''c.jpg'', ''400w'']
   \<and> try_srcset_tokens (download_image_from_url offline) [''a.jpg'', ''100w'', ''b.jpg'', ''800w'', ''c.jpg'', ''400w'']
       ''https://x.org/'' idle =
     (Inr None, \<lparr>net_world = (),
        requests = [(''b.jpg'', False), (''c.jpg'', False), (''a.jpg'', False)],
        files = Map.empty\<rparr>)
   \<and> distinct (map snd [(''a.jpg'', 100 :: int), (''b.jpg'', 800), (''c.jpg'', 400)])
   \<and> sorted_wrt (\<lambda>a b. a > b)
       (map snd (descending_weight_order [(''a.jpg'', 100), (''b.jpg'', 800), (''c.jpg'', 400)]))
   \<and> first_success_log
       (map fst (descending_weight_order [(''a.jpg'', 100), (''b.jpg'', 800), (''c.jpg'', 400)]))
       [(''b.jpg'', False), (''c.jpg'', False), (''a.jpg'', False)] (Inr None)"
proof -
  have len: "length [(''a.jpg'', 100 :: int), (''b.jpg'', 800), (''c.jpg'', 400)] * 2 =
       length [''a.jpg'', ''100w'', ''b.jpg'', ''800w'', ''c.jpg'', ''400w'']"
    by simp
  have dist: "distinct (map snd [(''a.jpg'', 100 :: int), (''b.jpg'', 800), (''c.jpg'', 400)])"
    by simp
  note inst = srcset_attempts_by_descending_weight[OF abc_pairs len abc_run]
  from inst dist have strict: "sorted_wrt (\<lambda>a b. a > b)
       (map snd (descending_weight_order [(''a.jpg'', 100), (''b.jpg'', 800), (''c.jpg'', 400)]))"
    by blast
  from inst obtain tried where
    "requests \<lparr>net_world = (),
        requests = [(''b.jpg'', False), (''c.jpg'', False), (''a.jpg'', False)],
        files = Map.empty\<rparr> = requests idle @ tried"
    "first_success_log
       (map fst (descending_weight_order [(''a.jpg'', 100), (''b.jpg'', 800), (''c.jpg'', 400)]))
       tried (Inr None)"
    by blast
  then have log: "first_success_log
       (map fst (descending_weight_order [(''a.jpg'', 100), (''b.jpg'', 800), (''c.jpg'', 400)]))
       [(''b.jpg'', False), (''c.jpg'', False), (''a.jpg'', False)] (Inr None)"
    by (simp add: idle_def)
  from abc_pairs len abc_run dist strict log show ?thesis
    by (intro conjI)
qed

text \<open>
  The claim as stated fails where two weights are equal: the attempts for
  \<^verbatim>\<open>a.jpg 100w, b.jpg 100w\<close> are \<^verbatim>\<open>a.jpg\<close> and \<^verbatim>\<open>b.jpg\<close>, of weights 100 and 100, which do
  not strictly descend.
\<close>

theorem strictly_descending_counterexample:
  "srcset_tokens_of ''a.jpg 100w, b.jpg 100w'' = [''a.jpg'', ''100w'', ''b.jpg'', ''100w'']
   \<and> parse_pairs [''a.jpg'', ''100w'', ''b.jpg'', ''100w''] =
       Inr [(''a.jpg'', 100), (''b.jpg'', 100)]
   \<and> requests (snd (try_srcset_tokens (download_image_from_url offline) [''a.jpg'', ''100w'', ''b.jpg'', ''100w'']
        ''https://x.org/'' idle)) = [(''a.jpg'', False), (''b.jpg'', False)]
   \<and> descending_weight_order [(''a.jpg'', 100), (''b.jpg'', 100)] =
       [(''a.jpg'', 100), (''b.jpg'', 100)]
   \<and> \<not> sorted_wrt (\<lambda>a b. a > b) [100 :: int, 100]"
  by (simp add: token_defs resolver_defs offline_def idle_def descending_weight_order_def)

subsection \<open>C9: the element handed to the resolver\<close>

text \<open>The first item of a heap is one of its items.\<close>

lemma heap_first_in_heap: "heap \<noteq> [] \<Longrightarrow> heap_first key heap \<in> set heap"
proof -
  have "fold (\<lambda>x m. if key x < key m then x else m) xs a \<in> set (a # xs)" for xs a
    by (induction xs arbitrary: a) auto
  from this[of "tl heap" "hd heap"] show "heap \<noteq> [] \<Longrightarrow> heap_first key heap \<in> set heap"
    by (simp add: heap_first_def)
qed

lemma heap_first_least:
  assumes "heap \<noteq> []"
  shows "\<forall>x \<in> set heap. key (heap_first key heap) \<le> key x"
proof -
  have "\<forall>x \<in> set (a # xs). key (fold (\<lambda>x m. if key x < key m then x else m) xs a) \<le> key x"
    for xs a
  proof (induction xs arbitrary: a)
    case Nil
    show ?case by simp
  next
    case (Cons y ys)
    from Cons[of "if key y < key a then y else a"] show ?case
      by (auto split: if_splits)
  qed
  from this[of "hd heap" "tl heap"] assms show ?thesis
    by (simp add: heap_first_def)
qed

lemma area_at_Cons_0:
  "area_at fmul ((bx, blk) # bs) 0 =
     (case bx of None \<Rightarrow> None
      | Some b \<Rightarrow> if fmul (width b) (height b) = 0 then None else Some (fmul (width b) (height b)))"
  by (simp add: area_at_def)

lemma area_at_Cons_Suc: "area_at fmul (x # bs) (Suc j) = area_at fmul bs j"
  by (simp add: area_at_def)

lemma set_push_boxes:
  "set (push_boxes fmul k bs heap) =
     set heap \<union> {((- a, k + j), snd (bs ! j)) | j a. area_at fmul bs j = Some a}"
proof (induction fmul k bs heap rule: push_boxes.induct)
  case (1 fmul i heap)
  show ?case by (simp add: area_at_def)
next
  case (2 fmul i img_block img_blocks heap)
  have "{((- a, i + j), snd (((None, img_block) # img_blocks) ! j)) | j a.
          area_at fmul ((None, img_block) # img_blocks) j = Some a} =
        {((- a, Suc i + j), snd (img_blocks ! j)) | j a. area_at fmul img_blocks j = Some a}"
    (is "?L = ?R")
  proof (intro set_eqI iffI)
    fix x assume "x \<in> ?L"
    then obtain j a where x: "x = ((- a, i + j), snd (((None, img_block) # img_blocks) ! j))"
      and a: "area_at fmul ((None, img_block) # img_blocks) j = Some a"
      by blast
    from a obtain j' where "j = Suc j'"
      by (cases j) (auto simp: area_at_Cons_0)
    with x a show "x \<in> ?R"
      by (auto simp: area_at_Cons_Suc)
  next
    fix x assume "x \<in> ?R"
    then obtain j a where "x = ((- a, Suc i + j), snd (img_blocks ! j))"
      "area_at fmul img_blocks j = Some a"
      by blast
    then show "x \<in> ?L"
      by (intro CollectI exI[of _ "Suc j"] exI[of _ a]) (simp add: area_at_Cons_Suc)
  qed
  with 2 show ?case by simp
next
  case (3 fmul i b img_block img_blocks heap)
  let ?bs = "(Some b, img_block) # img_blocks"
  have split: "{((- a, i + j), snd (?bs ! j)) | j a. area_at fmul ?bs j = Some a} =
        (if fmul (width b) (height b) = 0 then {} else {((- (fmul (width b) (height b)), i), img_block)})
        \<union> {((- a, Suc i + j), snd (img_blocks ! j)) | j a. area_at fmul img_blocks j = Some a}"
    (is "?L = ?Z \<union> ?R")
  proof (intro set_eqI iffI)
    fix x assume "x \<in> ?L"
    then obtain j a where x: "x = ((- a, i + j), snd (?bs ! j))"
      and a: "area_at fmul ?bs j = Some a"
      by blast
    show "x \<in> ?Z \<union> ?R"
    proof (cases j)
      case 0
      with x a show ?thesis
        by (auto simp: area_at_Cons_0 split: if_splits)
    next
      case (Suc j')
      with x a have "x \<in> ?R"
        by (auto simp: area_at_Cons_Suc)
      then show ?thesis by simp
    qed
  next
    fix x assume "x \<in> ?Z \<union> ?R"
    then consider (z) "x \<in> ?Z" | (r) "x \<in> ?R" by blast
    then show "x \<in> ?L"
    proof cases
      case z
      then have "fmul (width b) (height b) \<noteq> 0" "x = ((- (fmul (width b) (height b)), i + 0), snd (?bs ! 0))"
        by (auto split: if_splits)
      then show ?thesis
        by (intro CollectI exI[of _ 0] exI[of _ "fmul (width b) (height b)"])
          (simp add: area_at_Cons_0)
    next
      case r
      then obtain j a where "x = ((- a, Suc i + j), snd (img_blocks ! j))"
        "area_at fmul img_blocks j = Some a"
        by blast
      then show ?thesis
        by (intro CollectI exI[of _ "Suc j"] exI[of _ a]) (simp add: area_at_Cons_Suc)
    qed
  qed
  show ?case
  proof (cases "fmul (width b) (height b) = 0")
    case True
    with 3 split show ?thesis by (simp add: Let_def)
  next
    case False
    with 3 split show ?thesis by (auto simp: Let_def heappush_def)
  qed
qed

text \<open>
  The selector of the packaged module. If no element has a box of non-zero area,
  \<^verbatim>\<open>get_img\<close> returns \<^verbatim>\<open>(None, None)\<close>, with no download and no exception. Otherwise the
  element handed to the resolver has a box of non-zero area, no element has a larger area,
  and no earlier element has the same area.
\<close>

lemma get_img_selects_largest:
  "((\<forall>i. area_at fmul img_blocks i = None) \<longrightarrow>
      get_img fmul env to_jpeg img_blocks base_url img_name st = (Inr (None, None), st))
   \<and> ((\<exists>i. area_at fmul img_blocks i \<noteq> None) \<longrightarrow>
      (\<exists>i a. area_at fmul img_blocks i = Some a
         \<and> (\<forall>j b. area_at fmul img_blocks j = Some b \<longrightarrow> b \<le> a \<and> (b = a \<longrightarrow> i \<le> j))
         \<and> get_img fmul env to_jpeg img_blocks base_url img_name st =
             save_image to_jpeg img_name
               (extract_best_image_from_url (download_image_from_url env) (snd (img_blocks ! i)) base_url st)))"
proof -
  let ?heap = "push_boxes fmul 0 img_blocks []"
  have s: "set ?heap = {((- a, j), snd (img_blocks ! j)) | j a. area_at fmul img_blocks j = Some a}"
    using set_push_boxes[of fmul 0 img_blocks "[]"] by simp
  have none: "get_img fmul env to_jpeg img_blocks base_url img_name st = (Inr (None, None), st)"
    if "\<forall>i. area_at fmul img_blocks i = None"
  proof -
    from that s have "set ?heap = {}" by simp
    then show ?thesis by (simp add: get_img_def)
  qed
  have some: "\<exists>i a. area_at fmul img_blocks i = Some a
         \<and> (\<forall>j b. area_at fmul img_blocks j = Some b \<longrightarrow> b \<le> a \<and> (b = a \<longrightarrow> i \<le> j))
         \<and> get_img fmul env to_jpeg img_blocks base_url img_name st =
             save_image to_jpeg img_name
               (extract_best_image_from_url (download_image_from_url env) (snd (img_blocks ! i)) base_url st)"
    if "\<exists>i. area_at fmul img_blocks i \<noteq> None"
  proof -
    from that s have ne: "?heap \<noteq> []" by fastforce
    from heap_first_in_heap[OF ne, of fst] s
    obtain i a where top: "heap_first fst ?heap = ((- a, i), snd (img_blocks ! i))"
      and a: "area_at fmul img_blocks i = Some a"
      by blast
    have least: "b \<le> a \<and> (b = a \<longrightarrow> i \<le> j)" if "area_at fmul img_blocks j = Some b" for j b
    proof -
      from that s have "((- b, j), snd (img_blocks ! j)) \<in> set ?heap" by blast
      with heap_first_least[OF ne, of fst] top have "(- a, i) \<le> (- b, j)"
        by fastforce
      then show ?thesis
        by (auto simp: less_eq_prod_def)
    qed
    from ne top have "get_img fmul env to_jpeg img_blocks base_url img_name st =
        save_image to_jpeg img_name
          (extract_best_image_from_url (download_image_from_url env) (snd (img_blocks ! i)) base_url st)"
      by (simp add: get_img_def Let_def)
    with a least show ?thesis by blast
  qed
  from none some show ?thesis by blast
qed

text \<open>An example: of two elements of area 6 the earlier is handed to the resolver.\<close>

lemma gallery_example:
  "get_img (\<lambda>a b. a * b) serves_png (\<lambda>b. RaisesIOOrValueError) gallery_images
       ''https://x.org/'' ''Mona Lisa'' idle =
     save_image (\<lambda>b. RaisesIOOrValueError) ''Mona Lisa''
       (extract_best_image_from_url (download_image_from_url serves_png)
          (snd (gallery_images ! 1)) ''https://x.org/'' idle)
   \<and> area_at (\<lambda>a b. a * b) gallery_images 0 = None
   \<and> area_at (\<lambda>a b. a * b) gallery_images 1 = Some 6
   \<and> area_at (\<lambda>a b. a * b) gallery_images 2 = Some 6
   \<and> fst (get_img (\<lambda>a b. a * b) serves_png (\<lambda>b. RaisesIOOrValueError) gallery_images
         ''https://x.org/'' ''Mona Lisa'' idle) =
       Inr (Some ''extracted_images/Mona Lisa.png'', Some ''https://x.org/b.png'')"
  by (simp add: get_img_def gallery_images_def heappush_def heap_first_def area_at_def
      save_image_def extract_best_image_from_url_def try_src_and_attrs_def get_attribute_def
      try_download_def download_image_from_url_def serves_png_def png_response_def
      content_type_of_def extension_of_def truthy_def convert_to_jpeg_def
      EXTRACTED_IMAGES_DIR_def idle_def Let_def)

text \<open>
  Claim C9 on the legacy module: if no element qualifies, the selector reports ``no
  candidate'' (it returns the absent pair) rather than raising an error. The legacy
  \<^verbatim>\<open>get_img\<close> reads \<^verbatim>\<open>heap[0]\<close> without a test: on a page whose image elements have no box,
  or a box of area zero, it raises \<^verbatim>\<open>IndexError\<close>, where the packaged \<^verbatim>\<open>get_img\<close> returns
  \<^verbatim>\<open>(None, None)\<close>.
\<close>

theorem legacy_get_img_no_candidate:
  "legacy_get_img (\<lambda>a b. a * b) serves_png (\<lambda>b. RaisesIOOrValueError) hidden_images
       ''https://x.org/'' ''Mona Lisa'' idle =
     (Inl IndexError, idle)
   \<and> get_img (\<lambda>a b. a * b) serves_png (\<lambda>b. RaisesIOOrValueError) hidden_images
       ''https://x.org/'' ''Mona Lisa'' idle =
     (Inr (None, None), idle)"
  by (simp add: legacy_get_img_def get_img_def hidden_images_def)

lemma legacy_get_img_raises:
  "(\<forall>i. area_at fmul img_blocks i = None) \<Longrightarrow>
     legacy_get_img fmul env to_jpeg img_blocks base_url img_name st = (Inl IndexError, st)"
proof -
  assume "\<forall>i. area_at fmul img_blocks i = None"
  with set_push_boxes[of fmul 0 img_blocks "[]"]
  have "set (push_boxes fmul 0 img_blocks []) = {}"
    by simp
  then show ?thesis by (simp add: legacy_get_img_def)
qed

end
